theory Spec2Isabelle
  imports Complex_Main "HOL-Library.Sublist" "HOL-Library.Multiset" "HOL-Library.AList"
    "HOL-Library.List_Lexorder" "HOL-Library.Char_ord"
begin

section \<open>Strings\<close>

text \<open>
  JavaScript strings are modelled as \<^typ>\<open>string\<close>, one \<^typ>\<open>char\<close> per code unit, over
  the ASCII alphabet: case mapping touches the letters A-Z and a-z only, and white space is
  the ASCII part of what \<^verbatim>\<open>\s\<close> and \<^verbatim>\<open>trim()\<close> remove (tab, line feed, vertical tab,
  form feed, carriage return, space). A value that may be \<^verbatim>\<open>undefined\<close> or \<^verbatim>\<open>null\<close>
  is a \<^typ>\<open>string option\<close>. Numbers are exact (\<^typ>\<open>int\<close>, \<^typ>\<open>real\<close>) where JavaScript
  computes in IEEE doubles.
\<close>

definition is_space :: "char \<Rightarrow> bool" where
  "is_space c \<longleftrightarrow> c \<in> set [CHR 0x09, CHR 0x0A, CHR 0x0B, CHR 0x0C, CHR 0x0D, CHR '' '']"

definition trim :: "string \<Rightarrow> string" where
  "trim s = rev (dropWhile is_space (rev (dropWhile is_space s)))"

definition toLowerChar :: "char \<Rightarrow> char" where
  "toLowerChar c =
     (case map_of (zip ''ABCDEFGHIJKLMNOPQRSTUVWXYZ'' ''abcdefghijklmnopqrstuvwxyz'') c of
        Some d \<Rightarrow> d | None \<Rightarrow> c)"

definition toUpperChar :: "char \<Rightarrow> char" where
  "toUpperChar c =
     (case map_of (zip ''abcdefghijklmnopqrstuvwxyz'' ''ABCDEFGHIJKLMNOPQRSTUVWXYZ'') c of
        Some d \<Rightarrow> d | None \<Rightarrow> c)"

definition toLowerCase :: "string \<Rightarrow> string" where
  "toLowerCase s = map toLowerChar s"

definition toUpperCase :: "string \<Rightarrow> string" where
  "toUpperCase s = map toUpperChar s"

text \<open>\<^verbatim>\<open>x || ""\<close> for a string or \<^verbatim>\<open>undefined\<close>.\<close>

definition orEmpty :: "string option \<Rightarrow> string" where
  "orEmpty v = (case v of None \<Rightarrow> [] | Some s \<Rightarrow> s)"

text \<open>\<^verbatim>\<open>function norm(s) { return String(s || "").trim().toLowerCase(); }\<close>\<close>

definition norm_s :: "string \<Rightarrow> string" where
  "norm_s s = toLowerCase (trim s)"

text \<open>\<^verbatim>\<open>function key(s){ return String(s || '').toUpperCase().replace(/[\s\-_]/g,'').trim(); }\<close>\<close>

definition key :: "string \<Rightarrow> string" where
  "key s = trim (filter (\<lambda>c. \<not> (is_space c \<or> c = CHR ''-'' \<or> c = CHR ''_'')) (toUpperCase s))"

definition is_digit :: "char \<Rightarrow> bool" where
  "is_digit c \<longleftrightarrow> c \<in> set ''0123456789''"

definition digit_val :: "char \<Rightarrow> nat" where
  "digit_val c =
     (case map_of (zip ''0123456789'' [0, 1, 2, 3, 4, 5, 6, 7, 8, 9]) c of
        Some n \<Rightarrow> n | None \<Rightarrow> 0)"

definition digits_val :: "string \<Rightarrow> nat" where
  "digits_val ds = foldl (\<lambda>a c. 10 * a + digit_val c) 0 ds"

definition unreserved :: "char \<Rightarrow> bool" where
  "unreserved c \<longleftrightarrow>
     c \<in> set ''ABCDEFGHIJKLMNOPQRSTUVWXYZabcdefghijklmnopqrstuvwxyz0123456789-_.!~*()''
     \<or> c = CHR 0x27"

definition hexDigit :: "nat \<Rightarrow> char" where
  "hexDigit n = ''0123456789ABCDEF'' ! n"

definition encodeURIComponent :: "string \<Rightarrow> string" where
  "encodeURIComponent s =
     concat (map (\<lambda>c. if unreserved c then [c]
                       else [CHR ''%'', hexDigit (of_char c div 16), hexDigit (of_char c mod 16)]) s)"

section \<open>Field coercions of the CSV catalog\<close>

text \<open>
  \<^verbatim>\<open>parseInt(s, 10)\<close>: leading white space, an optional sign, then the longest run of
  digits; \<^verbatim>\<open>NaN\<close> (here \<open>None\<close>) when there is no digit.
\<close>

definition parseInt :: "string \<Rightarrow> int option" where
  "parseInt s =
     (let t = dropWhile is_space s;
          neg = (t \<noteq> [] \<and> hd t = CHR ''-'');
          r = (if t \<noteq> [] \<and> (hd t = CHR ''-'' \<or> hd t = CHR ''+'') then tl t else t);
          ds = takeWhile is_digit r
      in if ds = [] then None
         else Some (if neg then - int (digits_val ds) else int (digits_val ds)))"

text \<open>
  \<^verbatim>\<open>function toInt(v) { const n = parseInt(String(v || "").trim(), 10);
                        return Number.isFinite(n) ? n : null; }\<close>
\<close>

definition toInt :: "string option \<Rightarrow> int option" where
  "toInt v = parseInt (trim (orEmpty v))"

text \<open>
  \<^verbatim>\<open>Number(s)\<close> on a string of digits and points, which is all that the \<^verbatim>\<open>replace\<close> of
  \<^verbatim>\<open>parseMoneyUSD\<close> leaves: digits with at most one point and at least one digit make a
  number, the empty string is 0, anything else is \<^verbatim>\<open>NaN\<close> (\<open>None\<close>).
\<close>

definition Number_dec :: "string \<Rightarrow> real option" where
  "Number_dec s =
     (let ip = takeWhile is_digit s; rest = dropWhile is_digit s
      in if rest = [] then Some (real (digits_val ip))
         else if hd rest = CHR ''.'' \<and> list_all is_digit (tl rest) \<and> (ip \<noteq> [] \<or> tl rest \<noteq> [])
         then Some (real (digits_val ip) + real (digits_val (tl rest)) / 10 ^ length (tl rest))
         else None)"

text \<open>\<^verbatim>\<open>Math.round\<close>: the nearest integer, a half rounded up.\<close>

definition Math_round :: "real \<Rightarrow> real" where
  "Math_round x = of_int \<lfloor>x + 1 / 2\<rfloor>"

text \<open>
  \<^verbatim>\<open>
  function parseMoneyUSD(v) {
    const s = String(v || "").replace(/[^0-9.]/g, "");
    if (!s) return null;
    let n = Number(s);
    if (!Number.isFinite(n)) return null;
    if (n < 0) n = 0;
    if (n > 999.99) n = 999.99;
    return Math.round(n * 100) / 100;
  }\<close>
\<close>

definition parseMoneyUSD :: "string option \<Rightarrow> real option" where
  "parseMoneyUSD v =
     (let s = filter (\<lambda>c. is_digit c \<or> c = CHR ''.'') (orEmpty v)
      in if s = [] then None
         else case Number_dec s of
                None \<Rightarrow> None
              | Some n \<Rightarrow>
                  (let n1 = (if n < 0 then 0 else n);
                       n2 = (if n1 > 999.99 then 999.99 else n1)
                   in Some (Math_round (n2 * 100) / 100)))"

section \<open>The CSV parser\<close>

text \<open>
  The scanning loop of \<^verbatim>\<open>parseCSV\<close>: the text still to read, \<^verbatim>\<open>inQuotes\<close>, the current
  \<^verbatim>\<open>field\<close> and \<^verbatim>\<open>row\<close>, and the \<^verbatim>\<open>rows\<close> pushed so far. At the end of the text the last
  field and row are pushed.
  The byte order mark that \<^verbatim>\<open>stripBOM\<close> removes is not an ASCII character, so on the
  modelled alphabet \<^verbatim>\<open>stripBOM\<close> returns its argument.
\<close>

fun scanCSV :: "string \<Rightarrow> bool \<Rightarrow> string \<Rightarrow> string list \<Rightarrow> string list list \<Rightarrow> string list list" where
  "scanCSV [] inQuotes field row rows = rows @ [row @ [field]]"
| "scanCSV (c # cs) inQuotes field row rows =
     (if inQuotes then
        (if c = CHR 0x22 then
           (if cs \<noteq> [] \<and> hd cs = CHR 0x22 then scanCSV (tl cs) True (field @ [CHR 0x22]) row rows
            else scanCSV cs False field row rows)
         else scanCSV cs True (field @ [c]) row rows)
      else if c = CHR 0x22 then scanCSV cs True field row rows
      else if c = CHR '','' then scanCSV cs False [] (row @ [field]) rows
      else if c = CHR 0x0A then scanCSV cs False [] [] (rows @ [row @ [field]])
      else if c = CHR 0x0D then
        scanCSV (if cs \<noteq> [] \<and> hd cs = CHR 0x0A then tl cs else cs) False [] [] (rows @ [row @ [field]])
      else scanCSV cs False (field @ [c]) row rows)"

text \<open>A record of the parser: canonical header to trimmed cell.\<close>

type_synonym csv_row = "string \<rightharpoonup> string"

definition canonicalHeader :: "string \<Rightarrow> string" where
  "canonicalHeader h = filter (\<lambda>c. \<not> (is_space c \<or> c = CHR ''_'')) (toLowerCase h)"

definition cell :: "string list \<Rightarrow> nat \<Rightarrow> string" where
  "cell line c = (if c < length line then line ! c else [])"

definition rowObject :: "string list \<Rightarrow> string list \<Rightarrow> csv_row" where
  "rowObject headers line =
     fold (\<lambda>c obj. obj(headers ! c \<mapsto> trim (cell line c))) [0..<length headers] Map.empty"

definition parseCSV :: "string \<Rightarrow> csv_row list" where
  "parseCSV text =
     (let rows = rev (dropWhile (list_all (\<lambda>v. v = [])) (rev (scanCSV text False [] [] [])))
      in if rows = [] then []
         else map (rowObject (map canonicalHeader (hd rows))) (tl rows))"

section \<open>The CSV catalog: entities\<close>

record model =
  m_id :: string
  m_brand :: string
  m_modelNumber :: string

record schematic =
  s_id :: string
  s_modelId :: string
  s_name :: string
  s_order :: int
  s_image :: string

record schematicPart =
  l_schematicId :: string
  l_diagramNo :: int
  l_order :: int
  l_partId :: string

record part =
  p_id :: string
  p_number :: string
  p_manufacturer :: string
  p_name :: string
  p_description :: string
  p_productStatus :: string
  p_inventory :: int
  p_price :: "real option"

text \<open>\<^verbatim>\<open>(r.k || "").trim()\<close> and \<^verbatim>\<open>toInt(r.k) ?? 0\<close>.\<close>

definition str_field :: "csv_row \<Rightarrow> string \<Rightarrow> string" where
  "str_field r k = trim (orEmpty (r k))"

definition int_field :: "csv_row \<Rightarrow> string \<Rightarrow> int" where
  "int_field r k = (case toInt (r k) of None \<Rightarrow> 0 | Some n \<Rightarrow> n)"

definition mkModel :: "csv_row \<Rightarrow> model" where
  "mkModel r = \<lparr>m_id = str_field r ''id'', m_brand = str_field r ''brand'',
                m_modelNumber = str_field r ''modelnumber''\<rparr>"

definition mkSchematic :: "csv_row \<Rightarrow> schematic" where
  "mkSchematic r = \<lparr>s_id = str_field r ''id'', s_modelId = str_field r ''modelid'',
                    s_name = str_field r ''name'', s_order = int_field r ''order'',
                    s_image = str_field r ''image''\<rparr>"

definition mkSchematicPart :: "csv_row \<Rightarrow> schematicPart" where
  "mkSchematicPart r = \<lparr>l_schematicId = str_field r ''schematicid'',
                        l_diagramNo = int_field r ''diagramno'', l_order = int_field r ''order'',
                        l_partId = str_field r ''partid''\<rparr>"

definition mkPart :: "csv_row \<Rightarrow> part" where
  "mkPart r = \<lparr>p_id = str_field r ''id'',
               p_number = trim (if orEmpty (r ''number'') \<noteq> [] then orEmpty (r ''number'')
                                else orEmpty (r ''id'')),
               p_manufacturer = str_field r ''manufacturer'', p_name = str_field r ''name'',
               p_description = str_field r ''description'',
               p_productStatus = str_field r ''productstatus'',
               p_inventory = int_field r ''inventory'', p_price = parseMoneyUSD (r ''price'')\<rparr>"

section \<open>Sorting and dictionaries\<close>

text \<open>
  \<^verbatim>\<open>Array.prototype.sort(compare)\<close> is stable; with a consistent comparator every stable
  sort returns the same array, so it is modelled by insertion from the right.
\<close>

fun insertWith :: "('a \<Rightarrow> 'a \<Rightarrow> 'n::linordered_idom) \<Rightarrow> 'a \<Rightarrow> 'a list \<Rightarrow> 'a list" where
  "insertWith cmp x [] = [x]"
| "insertWith cmp x (y # ys) = (if cmp x y \<le> 0 then x # y # ys else y # insertWith cmp x ys)"

definition sortWith :: "('a \<Rightarrow> 'a \<Rightarrow> 'n::linordered_idom) \<Rightarrow> 'a list \<Rightarrow> 'a list" where
  "sortWith cmp xs = foldr (insertWith cmp) xs []"

text \<open>
  A dictionary object whose values are enumerated keeps its properties in creation order
  (an association list; assigning to an existing key keeps its place).
  \<^verbatim>\<open>Object.values\<close> lists the values of integer-index keys first, in ascending numeric
  order, then the other keys in creation order.
\<close>

type_synonym 'v dict = "(string \<times> 'v) list"

definition is_array_index :: "string \<Rightarrow> bool" where
  "is_array_index k \<longleftrightarrow>
     k \<noteq> [] \<and> list_all is_digit k \<and> (k = ''0'' \<or> hd k \<noteq> CHR ''0'') \<and> digits_val k < 2 ^ 32 - 1"

definition Object_values :: "'v dict \<Rightarrow> 'v list" where
  "Object_values d =
     map snd (sort_key (\<lambda>kv. digits_val (fst kv)) (filter (\<lambda>kv. is_array_index (fst kv)) d)
              @ filter (\<lambda>kv. \<not> is_array_index (fst kv)) d)"

text \<open>\<^verbatim>\<open>if (!by[k]) by[k] = []; by[k].push(x);\<close> for every element in turn.\<close>

definition groupBy :: "('a \<Rightarrow> string) \<Rightarrow> 'a list \<Rightarrow> (string \<rightharpoonup> 'a list)" where
  "groupBy k xs =
     fold (\<lambda>x by. by(k x \<mapsto> (case by (k x) of None \<Rightarrow> [] | Some l \<Rightarrow> l) @ [x])) xs Map.empty"

section \<open>The CSV catalog: indexes and load\<close>

text \<open>
  \<^verbatim>\<open>String.prototype.localeCompare\<close> is the host's collation; it is a parameter \<open>lc\<close> of
  everything that sorts.
\<close>

type_synonym collator = "string \<Rightarrow> string \<Rightarrow> int"

definition schematicCompare :: "collator \<Rightarrow> schematic \<Rightarrow> schematic \<Rightarrow> int" where
  "schematicCompare lc a b =
     (if s_order a - s_order b \<noteq> 0 then s_order a - s_order b else lc (s_id a) (s_id b))"

definition linkCompare :: "collator \<Rightarrow> schematicPart \<Rightarrow> schematicPart \<Rightarrow> int" where
  "linkCompare lc a b =
     (if l_order a - l_order b \<noteq> 0 then l_order a - l_order b
      else if l_diagramNo a - l_diagramNo b \<noteq> 0 then l_diagramNo a - l_diagramNo b
      else lc (l_partId a) (l_partId b))"

record catalog =
  models :: "model list"
  schematics :: "schematic list"
  schematicParts :: "schematicPart list"
  parts :: "part list"
  modelsById :: "string \<rightharpoonup> model"
  modelsByNumber :: "string \<rightharpoonup> model"
  schemsById :: "schematic dict"
  schemsByModel :: "string \<rightharpoonup> schematic list"
  partsById :: "string \<rightharpoonup> part"
  partsByIdLower :: "string \<rightharpoonup> part"
  partsByNumber :: "string \<rightharpoonup> part"
  linkBySchematic :: "string \<rightharpoonup> schematicPart list"

text \<open>
  \<^verbatim>\<open>
  models.forEach(m => {
    if (m.id) modelsById[m.id] = m;
    if (m.modelNumber) {
      const k = norm(m.modelNumber);
      modelsByNumber[k] = m;
      if (!modelsById[m.modelNumber]) modelsById[m.modelNumber] = m;
    }
  });\<close>
\<close>

definition indexModel :: "model \<Rightarrow> (string \<rightharpoonup> model) \<times> (string \<rightharpoonup> model)
                            \<Rightarrow> (string \<rightharpoonup> model) \<times> (string \<rightharpoonup> model)" where
  "indexModel m ix =
     (let byId = (if m_id m \<noteq> [] then (fst ix)(m_id m \<mapsto> m) else fst ix)
      in if m_modelNumber m \<noteq> [] then
           (if byId (m_modelNumber m) = None then byId(m_modelNumber m \<mapsto> m) else byId,
            (snd ix)(norm_s (m_modelNumber m) \<mapsto> m))
         else (byId, snd ix))"

text \<open>
  \<^verbatim>\<open>
  parts.forEach(p => {
    if (p.id) { partsById[p.id] = p; partsByIdLower[norm(p.id)] = p; }
    if (p.number) partsByNumber[norm(p.number)] = p;
  });\<close>
\<close>

definition indexPartId :: "part \<Rightarrow> (string \<rightharpoonup> part) \<Rightarrow> (string \<rightharpoonup> part)" where
  "indexPartId p by = (if p_id p \<noteq> [] then by(p_id p \<mapsto> p) else by)"

definition indexPartIdLower :: "part \<Rightarrow> (string \<rightharpoonup> part) \<Rightarrow> (string \<rightharpoonup> part)" where
  "indexPartIdLower p by = (if p_id p \<noteq> [] then by(norm_s (p_id p) \<mapsto> p) else by)"

definition indexPartNumber :: "part \<Rightarrow> (string \<rightharpoonup> part) \<Rightarrow> (string \<rightharpoonup> part)" where
  "indexPartNumber p by = (if p_number p \<noteq> [] then by(norm_s (p_number p) \<mapsto> p) else by)"

text \<open>
  The body of \<^verbatim>\<open>load\<close> after the four texts are parsed: the entities with their discard
  filters, then the indexes, as the object stored in \<^verbatim>\<open>_cache\<close>.
\<close>

definition build :: "collator \<Rightarrow> csv_row list \<Rightarrow> csv_row list \<Rightarrow> csv_row list \<Rightarrow> csv_row list \<Rightarrow> catalog" where
  "build lc modelsRows schemsRows linksRows partsRows =
     (let ms = filter (\<lambda>m. m_id m \<noteq> [] \<or> m_modelNumber m \<noteq> []) (map mkModel modelsRows);
          ss = filter (\<lambda>s. s_id s \<noteq> [] \<and> s_modelId s \<noteq> []) (map mkSchematic schemsRows);
          ls = filter (\<lambda>l. l_schematicId l \<noteq> [] \<and> l_partId l \<noteq> []) (map mkSchematicPart linksRows);
          ps = filter (\<lambda>p. p_id p \<noteq> [] \<or> p_number p \<noteq> []) (map mkPart partsRows);
          mix = fold indexModel ms (Map.empty, Map.empty)
      in \<lparr>models = ms, schematics = ss, schematicParts = ls, parts = ps,
          modelsById = fst mix, modelsByNumber = snd mix,
          schemsById = fold (\<lambda>s d. AList.update (s_id s) s d) ss [],
          schemsByModel = map_option (sortWith (schematicCompare lc)) \<circ> groupBy s_modelId ss,
          partsById = fold indexPartId ps Map.empty,
          partsByIdLower = fold indexPartIdLower ps Map.empty,
          partsByNumber = fold indexPartNumber ps Map.empty,
          linkBySchematic = map_option (sortWith (linkCompare lc)) \<circ> groupBy l_schematicId ls\<rparr>)"

text \<open>
  The fetch primitive: it rejects (\<open>Inl\<close>) or resolves with a response.
  \<^verbatim>\<open>
  async function fetchText(path) {
    const res = await fetch(path, { cache: "no-store" });
    if (!res.ok) throw new Error("HTTP " + res.status + " loading " + path);
    return res.text();
  }\<close>
\<close>

datatype loadFailure = FetchRejected string | HttpError nat string

record response =
  ok :: bool
  status :: nat
  body :: string

type_synonym fetcher = "string \<Rightarrow> loadFailure + response"

definition fetchText :: "fetcher \<Rightarrow> string \<Rightarrow> loadFailure + string" where
  "fetchText fetch path =
     (case fetch path of
        Inl e \<Rightarrow> Inl e
      | Inr res \<Rightarrow> if \<not> ok res then Inl (HttpError (status res) path) else Inr (body res))"

text \<open>
  \<^verbatim>\<open>load\<close> with the module variable \<^verbatim>\<open>_cache\<close> passed in and returned. \<^verbatim>\<open>Promise.all\<close>
  rejects as soon as one of the four requests rejects; the model reports the first failure
  in the order of the array.
\<close>

definition load :: "collator \<Rightarrow> fetcher \<Rightarrow> catalog option \<Rightarrow> (loadFailure + catalog) \<times> catalog option" where
  "load lc fetch cache =
     (case cache of
        Some db \<Rightarrow> (Inr db, cache)
      | None \<Rightarrow>
         (case fetchText fetch ''models.csv'' of Inl e \<Rightarrow> (Inl e, None) | Inr modelsTxt \<Rightarrow>
          case fetchText fetch ''schematics.csv'' of Inl e \<Rightarrow> (Inl e, None) | Inr schemsTxt \<Rightarrow>
          case fetchText fetch ''schematic_parts.csv'' of Inl e \<Rightarrow> (Inl e, None) | Inr linksTxt \<Rightarrow>
          case fetchText fetch ''parts.csv'' of Inl e \<Rightarrow> (Inl e, None) | Inr partsTxt \<Rightarrow>
            (let db = build lc (parseCSV modelsTxt) (parseCSV schemsTxt)
                               (parseCSV linksTxt) (parseCSV partsTxt)
             in (Inr db, Some db))))"

section \<open>The CSV catalog: accessors and exact search\<close>

text \<open>
  \<^verbatim>\<open>db.partsById[x] || db.partsByIdLower[norm(x)] || db.partsByNumber[norm(x)] || null\<close>
\<close>

definition getPartByIdOrNumber :: "catalog \<Rightarrow> string \<Rightarrow> part option" where
  "getPartByIdOrNumber db x =
     (case partsById db x of Some p \<Rightarrow> Some p | None \<Rightarrow>
      case partsByIdLower db (norm_s x) of Some p \<Rightarrow> Some p | None \<Rightarrow> partsByNumber db (norm_s x))"



datatype notice = NoExactMatch string | CouldNotLoad

datatype effect = Returned | Navigate string | Alert notice

text \<open>
  The body of the \<^verbatim>\<open>try\<close> of \<^verbatim>\<open>runSearch\<close> once the catalog is there: model by number,
  then part by id or number, then schematic by id or name.
\<close>

definition resolveExact :: "catalog \<Rightarrow> string \<Rightarrow> effect" where
  "resolveExact db q =
     (let k = norm_s q in
      case modelsByNumber db k of
        Some model \<Rightarrow>
          Navigate (''model.html?id='' @ encodeURIComponent
            (if m_modelNumber model \<noteq> [] then m_modelNumber model else m_id model))
      | None \<Rightarrow>
         (case getPartByIdOrNumber db q of
            Some part \<Rightarrow> Navigate (''product.html?id='' @ encodeURIComponent (p_id part))
          | None \<Rightarrow>
             (case (case map_of (schemsById db) q of
                      Some s \<Rightarrow> Some s
                    | None \<Rightarrow> find (\<lambda>s. norm_s (s_name s) = k) (Object_values (schemsById db))) of
                Some schematic \<Rightarrow>
                  Navigate (''schematic.html?id='' @ encodeURIComponent (s_id schematic))
              | None \<Rightarrow> Alert (NoExactMatch q))))"

text \<open>
  \<^verbatim>\<open>
  async function runSearch(query) {
    const q = (query || "").trim();
    if (!q) return;
    try { const db = await load(); ... } catch (err) { ...; alert("Could not load CSV data. ..."); }
  }\<close>
\<close>

definition runSearch_csv :: "collator \<Rightarrow> fetcher \<Rightarrow> catalog option \<Rightarrow> string option \<Rightarrow> effect \<times> catalog option" where
  "runSearch_csv lc fetch cache query =
     (let q = trim (orEmpty query) in
      if q = [] then (Returned, cache)
      else case load lc fetch cache of
             (Inl err, cache') \<Rightarrow> (Alert CouldNotLoad, cache')
           | (Inr db, cache') \<Rightarrow> (resolveExact db q, cache'))"

section \<open>The suggesting search: database and indexes\<close>

text \<open>
  The second search script keeps the rows of \<^verbatim>\<open>DB.init\<close> after their normalisation
  (an absent string field is the empty string) and four maps keyed by \<^verbatim>\<open>key\<close>.
\<close>

record fmodel =
  fm_id :: string
  fm_brand :: string
  fm_modelNumber :: string

record fschematic =
  fs_id :: string
  fs_modelID :: string
  fs_name :: string
  fs_order :: real
  fs_image :: string

record fpart =
  fp_id :: string
  fp_number :: string
  fp_manufacturer :: string
  fp_name :: string
  fp_description :: string
  fp_productStatus :: string
  fp_inventory :: real
  fp_price :: real

record ix =
  modelByKey :: "string \<rightharpoonup> fmodel"
  schematicByKey :: "string \<rightharpoonup> fschematic"
  partByIdKey :: "string \<rightharpoonup> fpart"
  partByNumberKey :: "string \<rightharpoonup> fpart"

record fdb =
  db_models :: "fmodel list"
  db_schematics :: "fschematic list"
  db_parts :: "fpart list"
  db_ix :: ix

text \<open>
  \<^verbatim>\<open>
  for (const m of this.models){
    if (!m.modelNumber) continue;
    modelByKey.set(key(m.modelNumber), m);
    if (m.id) modelByKey.set(key(m.id), m);
  }
  for (const s of this.schematics){ if (s.id) schematicByKey.set(key(s.id), s); }
  for (const p of this.parts){
    if (p.id) partByIdKey.set(key(p.id), p);
    if (p.number) partByNumberKey.set(key(p.number), p);
  }\<close>
\<close>

definition setModelKeys :: "fmodel \<Rightarrow> (string \<rightharpoonup> fmodel) \<Rightarrow> (string \<rightharpoonup> fmodel)" where
  "setModelKeys m by =
     (if fm_modelNumber m = [] then by
      else if fm_id m \<noteq> [] then by(key (fm_modelNumber m) \<mapsto> m, key (fm_id m) \<mapsto> m)
      else by(key (fm_modelNumber m) \<mapsto> m))"

definition setSchematicKey :: "fschematic \<Rightarrow> (string \<rightharpoonup> fschematic) \<Rightarrow> (string \<rightharpoonup> fschematic)" where
  "setSchematicKey s by = (if fs_id s \<noteq> [] then by(key (fs_id s) \<mapsto> s) else by)"

definition setPartIdKey :: "fpart \<Rightarrow> (string \<rightharpoonup> fpart) \<Rightarrow> (string \<rightharpoonup> fpart)" where
  "setPartIdKey p by = (if fp_id p \<noteq> [] then by(key (fp_id p) \<mapsto> p) else by)"

definition setPartNumberKey :: "fpart \<Rightarrow> (string \<rightharpoonup> fpart) \<Rightarrow> (string \<rightharpoonup> fpart)" where
  "setPartNumberKey p by = (if fp_number p \<noteq> [] then by(key (fp_number p) \<mapsto> p) else by)"

definition initDB :: "fmodel list \<Rightarrow> fschematic list \<Rightarrow> fpart list \<Rightarrow> fdb" where
  "initDB ms ss ps =
     \<lparr>db_models = ms, db_schematics = ss, db_parts = ps,
      db_ix = \<lparr>modelByKey = fold setModelKeys ms Map.empty,
                schematicByKey = fold setSchematicKey ss Map.empty,
                partByIdKey = fold setPartIdKey ps Map.empty,
                partByNumberKey = fold setPartNumberKey ps Map.empty\<rparr>\<rparr>"

section \<open>The suggesting search: scoring\<close>

text \<open>
  \<^verbatim>\<open>
  function editDistance(a, b){
    const m = a.length, n = b.length;
    if (m === 0) return n; if (n === 0) return m;
    const dp = new Array(n+1);
    for (let j=0;j<=n;j++) dp[j]=j;
    for (let i=1;i<=m;i++){
      let prev = dp[0]; dp[0]=i;
      for (let j=1;j<=n;j++){
        const tmp = dp[j];
        if (a[i-1] === b[j-1]) dp[j]=prev;
        else dp[j]=Math.min(prev+1, dp[j]+1, dp[j-1]+1);
        prev = tmp;
      }
    }
    return dp[n];
  }\<close>
  The state of the inner loop is the array \<^verbatim>\<open>dp\<close> and \<^verbatim>\<open>prev\<close>; every index read or
  written is within the \<open>n + 1\<close> cells of the array.
\<close>

definition editCell :: "string \<Rightarrow> string \<Rightarrow> nat \<Rightarrow> nat \<Rightarrow> nat list \<times> nat \<Rightarrow> nat list \<times> nat" where
  "editCell a b i j st =
     (let dp = fst st; prev = snd st; tmp = dp ! j
      in (if a ! (i - 1) = b ! (j - 1) then dp[j := prev]
          else dp[j := min (min (prev + 1) (dp ! j + 1)) (dp ! (j - 1) + 1)],
          tmp))"

definition editRow :: "string \<Rightarrow> string \<Rightarrow> nat \<Rightarrow> nat list \<Rightarrow> nat list" where
  "editRow a b i dp = fst (fold (editCell a b i) [1..<length b + 1] (dp[0 := i], dp ! 0))"

definition editDistance :: "string \<Rightarrow> string \<Rightarrow> nat" where
  "editDistance a b =
     (let m = length a; n = length b
      in if m = 0 then n else if n = 0 then m
         else fold (editRow a b) [1..<m + 1] [0..<n + 1] ! n)"

text \<open>\<^verbatim>\<open>hay.startsWith(q)\<close> and \<^verbatim>\<open>hay.includes(q)\<close>.\<close>

fun startsWith :: "string \<Rightarrow> string \<Rightarrow> bool" where
  "startsWith hay [] = True"
| "startsWith [] (q # qs) = False"
| "startsWith (h # hs) (q # qs) = (h = q \<and> startsWith hs qs)"

fun includes_s :: "string \<Rightarrow> string \<Rightarrow> bool" where
  "includes_s [] q = (q = [])"
| "includes_s (h # hs) q = (startsWith (h # hs) q \<or> includes_s hs q)"

text \<open>
  \<^verbatim>\<open>
  function score(qKey, hayRaw){
    const hayKey = key(hayRaw);
    if (!hayKey) return 0;
    if (hayKey === qKey) return 1.0;
    if (hayKey.startsWith(qKey)) return 0.97 * (qKey.length / hayKey.length);
    if (hayKey.includes(qKey)) return 0.90 * (qKey.length / hayKey.length);
    const d = editDistance(qKey, hayKey);
    const maxLen = Math.max(qKey.length, hayKey.length);
    const sim = 1 - (d / maxLen);
    return sim * 0.85;
  }\<close>
\<close>

definition score :: "string \<Rightarrow> string \<Rightarrow> real" where
  "score qKey hayRaw =
     (let hayKey = key hayRaw
      in if hayKey = [] then 0
         else if hayKey = qKey then 1
         else if startsWith hayKey qKey then 0.97 * (real (length qKey) / real (length hayKey))
         else if includes_s hayKey qKey then 0.90 * (real (length qKey) / real (length hayKey))
         else (let d = editDistance qKey hayKey;
                   maxLen = max (length qKey) (length hayKey);
                   sim = 1 - real d / real maxLen
               in sim * 0.85))"

text \<open>
  \<^verbatim>\<open>
  function scoreLoose(qKey, text){
    const hay = key(text);
    if (!hay) return 0;
    if (hay.includes(qKey)) return 0.88 * (qKey.length / Math.max(hay.length, qKey.length));
    const d = editDistance(qKey, hay);
    const sim = 1 - (d / Math.max(qKey.length, hay.length));
    return sim * 0.75;
  }\<close>
\<close>

definition scoreLoose :: "string \<Rightarrow> string \<Rightarrow> real" where
  "scoreLoose qKey text =
     (let hay = key text
      in if hay = [] then 0
         else if includes_s hay qKey
         then 0.88 * (real (length qKey) / real (max (length hay) (length qKey)))
         else (let d = editDistance qKey hay;
                   sim = 1 - real d / real (max (length qKey) (length hay))
               in sim * 0.75))"

section \<open>The suggesting search: candidates and routing\<close>

record candidate =
  c_score :: real
  c_label :: string
  c_sub :: string
  c_route :: string

record suggestions =
  sg_models :: "candidate list"
  sg_parts :: "candidate list"
  sg_schematics :: "candidate list"
  uniqueRoute :: "string option"
  totalFound :: nat

record limits =
  limitModels :: "nat option"
  limitParts :: "nat option"
  limitSchems :: "nat option"

text \<open>\<^verbatim>\<open>a || b\<close> on strings.\<close>

definition orStr :: "string \<Rightarrow> string \<Rightarrow> string" where
  "orStr a b = (if a \<noteq> [] then a else b)"

definition byScoreDesc :: "candidate \<Rightarrow> candidate \<Rightarrow> real" where
  "byScoreDesc a b = c_score b - c_score a"

text \<open>
  \<^verbatim>\<open>
  function pickUniqueRoute(models, parts, schems){
    // Confidence heuristic: score gap > 0.12 and top score >= 0.9
    const top = [models[0], parts[0], schems[0]].filter(Boolean).sort((a,b)=> b.score - a.score)[0];
    const runnerUp = [models[1], parts[1], schems[1]].filter(Boolean).sort((a,b)=> b.score - a.score)[0];
    if (!top) return null;
    const gap = (top?.score || 0) - (runnerUp?.score || 0);
    if (top.score >= 0.9 && gap >= 0.12) return top.route;
    return null;
  }\<close>
\<close>

definition elemAt :: "'a list \<Rightarrow> nat \<Rightarrow> 'a list" where
  "elemAt xs i = (if i < length xs then [xs ! i] else [])"

definition firstOf :: "'a list \<Rightarrow> 'a option" where
  "firstOf xs = (case xs of [] \<Rightarrow> None | x # _ \<Rightarrow> Some x)"

definition pickUniqueRoute :: "candidate list \<Rightarrow> candidate list \<Rightarrow> candidate list \<Rightarrow> string option" where
  "pickUniqueRoute ms ps schems =
     (let top = firstOf (sortWith byScoreDesc (elemAt ms 0 @ elemAt ps 0 @ elemAt schems 0));
          runnerUp = firstOf (sortWith byScoreDesc (elemAt ms 1 @ elemAt ps 1 @ elemAt schems 1))
      in case top of
           None \<Rightarrow> None
         | Some t \<Rightarrow>
             (let gap = c_score t - (case runnerUp of None \<Rightarrow> 0 | Some r \<Rightarrow> c_score r)
              in if c_score t \<ge> 0.9 \<and> gap \<ge> 0.12 then Some (c_route t) else None))"

text \<open>The three scoring loops of \<^verbatim>\<open>findBestCandidates\<close>, one candidate or none per row.\<close>

definition modelCandidate :: "string \<Rightarrow> fmodel \<Rightarrow> candidate list" where
  "modelCandidate qNorm m =
     (let hay = orStr (fm_modelNumber m) (fm_id m); s = score qNorm hay
      in if s > 0.55
         then [\<lparr>c_score = s, c_label = fm_modelNumber m, c_sub = fm_brand m,
                c_route = ''model.html?id='' @ encodeURIComponent (orStr (fm_modelNumber m) (fm_id m))\<rparr>]
         else [])"

definition partCandidate :: "string \<Rightarrow> fpart \<Rightarrow> candidate list" where
  "partCandidate qNorm p =
     (let primary = orStr (fp_number p) (fp_id p);
          s0 = score qNorm primary;
          s = (if s0 < 0.7 \<and> (fp_name p \<noteq> [] \<or> fp_description p \<noteq> [])
               then max s0 (max (if fp_name p \<noteq> [] then scoreLoose qNorm (fp_name p) else 0)
                                (if fp_description p \<noteq> [] then scoreLoose qNorm (fp_description p) else 0)
                            * 0.9)
               else s0)
      in if s > 0.55
         then [\<lparr>c_score = s, c_label = primary, c_sub = orStr (fp_name p) (fp_description p),
                c_route = ''parts.html?id='' @ encodeURIComponent primary\<rparr>]
         else [])"

definition schematicCandidate :: "string \<Rightarrow> fschematic \<Rightarrow> candidate list" where
  "schematicCandidate qNorm s =
     (let combo = fs_modelID s @ '' '' @ fs_name s @ '' '' @ fs_id s;
          sc = max (score qNorm (fs_id s)) (scoreLoose qNorm combo)
      in if sc > 0.6
         then [\<lparr>c_score = sc, c_label = orStr (fs_name s) (fs_id s),
                c_sub = (if fs_modelID s \<noteq> [] then ''Model '' @ fs_modelID s else []),
                c_route = ''schematic.html?id='' @ encodeURIComponent (fs_id s)\<rparr>]
         else [])"

definition limitOr :: "nat \<Rightarrow> nat option \<Rightarrow> nat" where
  "limitOr d l = (case l of None \<Rightarrow> d | Some n \<Rightarrow> n)"

definition findBestCandidates :: "string \<Rightarrow> fdb \<Rightarrow> limits \<Rightarrow> suggestions" where
  "findBestCandidates query db lims =
     (let qNorm = key query
      in if qNorm = [] then
           \<lparr>sg_models = [], sg_parts = [], sg_schematics = [], uniqueRoute = None, totalFound = 0\<rparr>
         else
           (let ms = take (limitOr 8 (limitModels lims))
                       (sortWith byScoreDesc (concat (map (modelCandidate qNorm) (db_models db))));
                ps = take (limitOr 8 (limitParts lims))
                       (sortWith byScoreDesc (concat (map (partCandidate qNorm) (db_parts db))));
                schems = take (limitOr 5 (limitSchems lims))
                       (sortWith byScoreDesc (concat (map (schematicCandidate qNorm) (db_schematics db))))
            in \<lparr>sg_models = ms, sg_parts = ps, sg_schematics = schems,
                uniqueRoute = pickUniqueRoute ms ps schems,
                totalFound = length ms + length ps + length schems\<rparr>))"

definition noLimits :: limits where
  "noLimits = \<lparr>limitModels = None, limitParts = None, limitSchems = None\<rparr>"

datatype uiEffect = ShowToast string | Go string | OpenSuggestionsOverlay string suggestions

text \<open>
  \<^verbatim>\<open>window.runSearch\<close> of the suggesting search. \<open>ready\<close> is how the promise of
  \<^verbatim>\<open>DB.init()\<close> settled; \<^verbatim>\<open>await DB.init()\<close> is the first statement, so a rejection is
  re-raised (\<open>Inl\<close>) whatever the query. Otherwise the effects are listed in order.
\<close>

definition runSearch_fuzzy :: "loadFailure + fdb \<Rightarrow> string option \<Rightarrow> loadFailure + uiEffect list" where
  "runSearch_fuzzy ready rawQuery =
     (case ready of
        Inl err \<Rightarrow> Inl err
      | Inr db \<Rightarrow>
         (let qRaw = trim (orEmpty rawQuery) in
          if qRaw = [] then Inr [ShowToast ''Enter a model or part number.'']
          else
           (let q = key qRaw in
            case modelByKey (db_ix db) q of
              Some model \<Rightarrow>
                Inr [Go (''model.html?id='' @ encodeURIComponent (orStr (fm_modelNumber model) (fm_id model)))]
            | None \<Rightarrow>
               (case (case partByNumberKey (db_ix db) q of
                        Some p \<Rightarrow> Some p | None \<Rightarrow> partByIdKey (db_ix db) q) of
                  Some part \<Rightarrow>
                    Inr [Go (''parts.html?id='' @ encodeURIComponent (orStr (fp_number part) (fp_id part)))]
                | None \<Rightarrow>
                   (case schematicByKey (db_ix db) q of
                      Some schem \<Rightarrow> Inr [Go (''schematic.html?id='' @ encodeURIComponent (fs_id schem))]
                    | None \<Rightarrow>
                       (let best = findBestCandidates qRaw db noLimits;
                            route = (case uniqueRoute best of None \<Rightarrow> [] | Some r \<Rightarrow> r) in
                        if route \<noteq> [] then Inr [Go route]
                        else if totalFound best > 0 then Inr [OpenSuggestionsOverlay qRaw best]
                        else Inr [OpenSuggestionsOverlay qRaw
                                    \<lparr>sg_models = [], sg_parts = [], sg_schematics = [],
                                     uniqueRoute = None, totalFound = 0\<rparr>,
                                  ShowToast ''No matches found. Try a different model/part number.'']))))))"

section \<open>Notions used in the statements\<close>

text \<open>
  The standard edit distance with unit costs, by recursion on the two strings: dropping the
  head of either string is a deletion or an insertion, and the two heads are matched for
  free when they are equal and substituted for 1 otherwise.
\<close>

fun levenshtein :: "'a list \<Rightarrow> 'a list \<Rightarrow> nat" where
  "levenshtein [] ys = length ys"
| "levenshtein (x # xs) [] = Suc (length xs)"
| "levenshtein (x # xs) (y # ys) =
     min (min (levenshtein xs (y # ys) + 1) (levenshtein (x # xs) ys + 1))
         (levenshtein xs ys + (if x = y then 0 else 1))"

text \<open>
  The scoring layers in the words of the specification, for a query key \<open>q\<close> (already
  normalised, as every caller passes it) and a candidate text \<open>c\<close>; \<^const>\<open>prefix\<close> and
  \<^const>\<open>sublist\<close> are the library's notions of a prefix and of a contiguous substring.
\<close>

definition score_spec :: "string \<Rightarrow> string \<Rightarrow> real" where
  "score_spec q c =
     (let n = key c
      in if n = q then 1
         else if prefix q n then 0.97 * (real (length q) / real (length n))
         else if sublist q n then 0.90 * (real (length q) / real (length n))
         else (1 - real (levenshtein q n) / real (max (length q) (length n))) * 0.85)"

text \<open>A query that is \<^verbatim>\<open>null\<close> or \<^verbatim>\<open>undefined\<close>, empty, or white space only.\<close>

definition blankQuery :: "string option \<Rightarrow> bool" where
  "blankQuery query = (case query of None \<Rightarrow> True | Some s \<Rightarrow> list_all is_space s)"

text \<open>The four raw sources of \<^verbatim>\<open>load\<close>, and a fetch that succeeded (\<^verbatim>\<open>res.ok\<close>).\<close>

definition sources :: "string list" where
  "sources = [''models.csv'', ''schematics.csv'', ''schematic_parts.csv'', ''parts.csv'']"

definition fetchOk :: "fetcher \<Rightarrow> string \<Rightarrow> bool" where
  "fetchOk fetch path = (case fetch path of Inl e \<Rightarrow> False | Inr res \<Rightarrow> ok res)"

text \<open>The discard rules of the four entities, in the words of the specification.\<close>

definition validModel :: "model \<Rightarrow> bool" where
  "validModel m \<longleftrightarrow> m_id m \<noteq> [] \<or> m_modelNumber m \<noteq> []"

definition validSchematic :: "schematic \<Rightarrow> bool" where
  "validSchematic s \<longleftrightarrow> s_id s \<noteq> [] \<and> s_modelId s \<noteq> []"

definition validLink :: "schematicPart \<Rightarrow> bool" where
  "validLink l \<longleftrightarrow> l_schematicId l \<noteq> [] \<and> l_partId l \<noteq> []"

definition validPart :: "part \<Rightarrow> bool" where
  "validPart p \<longleftrightarrow> p_id p \<noteq> [] \<or> p_number p \<noteq> []"

text \<open>Everything a catalog holds of each entity: its collection and the values of its indexes.\<close>

definition heldModels :: "catalog \<Rightarrow> model set" where
  "heldModels db = set (models db) \<union> ran (modelsById db) \<union> ran (modelsByNumber db)"

definition heldSchematics :: "catalog \<Rightarrow> schematic set" where
  "heldSchematics db =
     set (schematics db) \<union> snd ` set (schemsById db) \<union> (\<Union>l\<in>ran (schemsByModel db). set l)"

definition heldLinks :: "catalog \<Rightarrow> schematicPart set" where
  "heldLinks db = set (schematicParts db) \<union> (\<Union>l\<in>ran (linkBySchematic db). set l)"

definition heldParts :: "catalog \<Rightarrow> part set" where
  "heldParts db =
     set (parts db) \<union> ran (partsById db) \<union> ran (partsByIdLower db) \<union> ran (partsByNumber db)"









text \<open>
  When a query matches an entity, as the two searches decide it. In the CSV catalog
  \<^verbatim>\<open>runSearch\<close> finds a model by its model number up to \<^verbatim>\<open>norm\<close> and never by its id; a
  part by its id (exactly, or up to \<^verbatim>\<open>norm\<close>) or by its number up to \<^verbatim>\<open>norm\<close>. In the
  suggesting search the index holds only models that have a model number, under the
  \<^verbatim>\<open>key\<close> of that number and of their id; a part is found by the \<^verbatim>\<open>key\<close> of its number or
  of its id.
\<close>

definition modelMatch_csv :: "model \<Rightarrow> string \<Rightarrow> bool" where
  "modelMatch_csv m q \<longleftrightarrow> m_modelNumber m \<noteq> [] \<and> norm_s (m_modelNumber m) = norm_s q"

definition partMatch_csv :: "part \<Rightarrow> string \<Rightarrow> bool" where
  "partMatch_csv p q \<longleftrightarrow>
     (p_id p \<noteq> [] \<and> (p_id p = trim q \<or> norm_s (p_id p) = norm_s q))
     \<or> (p_number p \<noteq> [] \<and> norm_s (p_number p) = norm_s q)"

definition modelMatch_fuzzy :: "fmodel \<Rightarrow> string \<Rightarrow> bool" where
  "modelMatch_fuzzy m q \<longleftrightarrow>
     fm_modelNumber m \<noteq> []
     \<and> (key (fm_modelNumber m) = key q \<or> (fm_id m \<noteq> [] \<and> key (fm_id m) = key q))"

definition partMatch_fuzzy :: "fpart \<Rightarrow> string \<Rightarrow> bool" where
  "partMatch_fuzzy p q \<longleftrightarrow>
     (fp_number p \<noteq> [] \<and> key (fp_number p) = key q) \<or> (fp_id p \<noteq> [] \<and> key (fp_id p) = key q)"

text \<open>
  The id alias of the claim: the query is the id of a model, up to the normalisation of the
  search.
\<close>

definition idAlias_csv :: "model \<Rightarrow> string \<Rightarrow> bool" where
  "idAlias_csv m q \<longleftrightarrow> m_id m \<noteq> [] \<and> norm_s (m_id m) = norm_s q"

definition idAlias_fuzzy :: "fmodel \<Rightarrow> string \<Rightarrow> bool" where
  "idAlias_fuzzy m q \<longleftrightarrow> fm_id m \<noteq> [] \<and> key (fm_id m) = key q"

section \<open>Sample data\<close>

text \<open>
  A sample collation (the order of the code units), a sample server without
  \<^verbatim>\<open>parts.csv\<close>, parsed rows of the four sources, and a small catalog and database.
\<close>

definition codeUnitCompare :: "string \<Rightarrow> string \<Rightarrow> int" where
  "codeUnitCompare a b = (if a = b then 0 else if a < b then - 1 else 1)"

definition notFound :: fetcher where
  "notFound path =
     Inr \<lparr>ok = (path \<noteq> ''parts.csv''), status = (if path = ''parts.csv'' then 404 else 200),
          body = []\<rparr>"

definition modelRow :: "string \<Rightarrow> string \<Rightarrow> string \<Rightarrow> csv_row" where
  "modelRow i b n = [''id'' \<mapsto> i, ''brand'' \<mapsto> b, ''modelnumber'' \<mapsto> n]"

definition schematicRow :: "string \<Rightarrow> string \<Rightarrow> string \<Rightarrow> string \<Rightarrow> csv_row" where
  "schematicRow i m n ord = [''id'' \<mapsto> i, ''modelid'' \<mapsto> m, ''name'' \<mapsto> n, ''order'' \<mapsto> ord]"

definition linkRow :: "string \<Rightarrow> string \<Rightarrow> string \<Rightarrow> string \<Rightarrow> csv_row" where
  "linkRow s d ord p = [''schematicid'' \<mapsto> s, ''diagramno'' \<mapsto> d, ''order'' \<mapsto> ord, ''partid'' \<mapsto> p]"

definition partRow :: "string \<Rightarrow> string \<Rightarrow> string \<Rightarrow> csv_row" where
  "partRow i n price = [''id'' \<mapsto> i, ''number'' \<mapsto> n, ''price'' \<mapsto> price]"

definition sampleModelRows :: "csv_row list" where
  "sampleModelRows = [modelRow [] ''Acme'' '' '', modelRow ''M1'' ''Acme'' ''X-100'']"

definition sampleSchemRows :: "csv_row list" where
  "sampleSchemRows = [schematicRow ''S0'' [] ''Door'' ''1'', schematicRow ''x-100'' ''M1'' ''Door'' ''1'',
                      schematicRow ''p7'' ''M1'' ''Drum'' ''2'']"

definition sampleLinkRows :: "csv_row list" where
  "sampleLinkRows = [linkRow ''S1'' ''1'' ''2'' ''P3'', linkRow ''S2'' ''1'' ''1'' ''P9'',
                     linkRow ''S1'' ''2'' ''1'' ''P2'', linkRow ''S1'' ''1'' ''1'' [],
                     linkRow ''S1'' ''1'' ''1'' ''P1'']"


definition samplePartRows :: "csv_row list" where
  "samplePartRows = [partRow [] [] ''9.99'', partRow ''x-100'' ''PN-1'' ''$12.50'', partRow ''P7'' ''PN-7'' []]"

definition sampleCatalog :: catalog where
  "sampleCatalog = build codeUnitCompare sampleModelRows sampleSchemRows sampleLinkRows samplePartRows"

definition sampleDB :: fdb where
  "sampleDB = initDB
     [\<lparr>fm_id = ''M1'', fm_brand = ''Acme'', fm_modelNumber = ''X-100''\<rparr>]
     [\<lparr>fs_id = ''X100'', fs_modelID = ''M1'', fs_name = ''Door'', fs_order = 1, fs_image = []\<rparr>,
      \<lparr>fs_id = ''P7'', fs_modelID = ''M1'', fs_name = ''Drum'', fs_order = 2, fs_image = []\<rparr>]
     [\<lparr>fp_id = ''x_100'', fp_number = ''PN-1'', fp_manufacturer = [], fp_name = [],
       fp_description = [], fp_productStatus = [], fp_inventory = 0, fp_price = 0\<rparr>,
      \<lparr>fp_id = ''7'', fp_number = ''P-7'', fp_manufacturer = [], fp_name = [],
       fp_description = [], fp_productStatus = [], fp_inventory = 0, fp_price = 0\<rparr>]"




text \<open>Four CSV texts, a server that answers with them, and the catalog they load.\<close>

definition modelsCsv :: string where
  "modelsCsv = ''id,brand,Model Number'' @ [CHR 0x0A] @ ''M1,Acme,X-100'' @ [CHR 0x0D, CHR 0x0A]"

definition schematicsCsv :: string where
  "schematicsCsv = ''id,modelID,name,order'' @ [CHR 0x0A] @ ''x-100,M1,Door,1'' @ [CHR 0x0A]
                   @ ''p7,M1,Drum,2'' @ [CHR 0x0A]"

definition linksCsv :: string where
  "linksCsv = ''schematicID,diagramNo,order,partID'' @ [CHR 0x0A] @ ''x-100,1,1,P7'' @ [CHR 0x0A]"

definition partsCsv :: string where
  "partsCsv = ''id,number,price'' @ [CHR 0x0A] @ ''x-100,PN-1,$12.50'' @ [CHR 0x0A]
              @ ''P7,PN-7,'' @ [CHR 0x0A]"

definition sampleServer :: fetcher where
  "sampleServer path =
     Inr \<lparr>ok = True, status = 200,
          body = (if path = ''models.csv'' then modelsCsv
                  else if path = ''schematics.csv'' then schematicsCsv
                  else if path = ''schematic_parts.csv'' then linksCsv
                  else partsCsv)\<rparr>"

definition servedCatalog :: catalog where
  "servedCatalog = build codeUnitCompare (parseCSV modelsCsv) (parseCSV schematicsCsv)
                     (parseCSV linksCsv) (parseCSV partsCsv)"

text \<open>
  A catalog and a database in which the id of a model is also the id of a part; the
  model of the database has no model number.
\<close>

definition aliasCatalog :: catalog where
  "aliasCatalog = build codeUnitCompare [modelRow ''M1'' ''Acme'' ''X-100''] [] []
                    [partRow ''M1'' ''PN-1'' []]"

definition aliasDB :: fdb where
  "aliasDB = initDB
     [\<lparr>fm_id = ''M1'', fm_brand = ''Acme'', fm_modelNumber = []\<rparr>] []
     [\<lparr>fp_id = ''M1'', fp_number = ''PN-1'', fp_manufacturer = [], fp_name = [],
       fp_description = [], fp_productStatus = [], fp_inventory = 0, fp_price = 0\<rparr>]"

section \<open>Invariants of the edit-distance loops\<close>

text \<open>The table of the dynamic programme: the distance of the prefixes, read from their ends.\<close>

definition lev_table :: "string \<Rightarrow> string \<Rightarrow> nat \<Rightarrow> nat \<Rightarrow> nat" where
  "lev_table a b i j = levenshtein (rev (take i a)) (rev (take j b))"

definition cells_ok :: "string \<Rightarrow> string \<Rightarrow> nat \<Rightarrow> nat \<Rightarrow> nat list \<times> nat \<Rightarrow> bool" where
  "cells_ok a b i k st \<longleftrightarrow>
     length (fst st) = length b + 1
     \<and> (\<forall>j\<le>k. fst st ! j = lev_table a b (Suc i) j)
     \<and> (\<forall>j. k < j \<and> j \<le> length b \<longrightarrow> fst st ! j = lev_table a b i j)
     \<and> snd st = lev_table a b i k"

definition row_ok :: "string \<Rightarrow> string \<Rightarrow> nat \<Rightarrow> nat list \<Rightarrow> bool" where
  "row_ok a b i dp \<longleftrightarrow> length dp = length b + 1 \<and> (\<forall>j\<le>length b. dp ! j = lev_table a b i j)"

section \<open>Lemmas on strings\<close>

lemma toUpperChar_idem: "toUpperChar (toUpperChar c) = toUpperChar c"
  by (simp add: toUpperChar_def)

lemma toLowerChar_idem: "toLowerChar (toLowerChar c) = toLowerChar c"
  by (simp add: toLowerChar_def)

lemma is_space_toLowerChar: "is_space (toLowerChar c) = is_space c"
  by (simp add: toLowerChar_def is_space_def)

lemma rev_dropWhile_rev_hd:
  "rev (dropWhile P (rev xs)) \<noteq> [] \<Longrightarrow> hd (rev (dropWhile P (rev xs))) = hd xs"
proof -
  assume ne: "rev (dropWhile P (rev xs)) \<noteq> []"
  have "rev xs = takeWhile P (rev xs) @ dropWhile P (rev xs)" by simp
  then have "xs = rev (dropWhile P (rev xs)) @ rev (takeWhile P (rev xs))"
    by (metis rev_append rev_rev_ident)
  then show ?thesis using ne by (metis hd_append2)
qed

lemma dropWhile_fixed: "xs = [] \<or> \<not> P (hd xs) \<Longrightarrow> dropWhile P xs = xs"
  by (cases xs) auto

lemma dropWhile_head: "dropWhile P xs = [] \<or> \<not> P (hd (dropWhile P xs))"
  by (metis hd_dropWhile)

lemma trim_idem: "trim (trim s) = trim s"
proof -
  let ?t = "dropWhile is_space s"
  let ?u = "rev (dropWhile is_space (rev ?t))"
  have head: "?u = [] \<or> \<not> is_space (hd ?u)"
  proof (cases "?u = []")
    case False
    then have "hd ?u = hd ?t" by (rule rev_dropWhile_rev_hd)
    moreover have "?t \<noteq> []"
    proof
      assume e: "?t = []"
      have "rev (dropWhile is_space (rev [])) = ([] :: string)" by simp
      with e False show False by metis
    qed
    ultimately show ?thesis using dropWhile_head [of is_space s] by metis
  qed simp
  then have a: "dropWhile is_space ?u = ?u" by (rule dropWhile_fixed)
  have b: "dropWhile is_space (rev ?u) = rev ?u"
    using dropWhile_head [of is_space "rev ?t"] by (simp add: dropWhile_fixed)
  show ?thesis unfolding trim_def a b by simp
qed

lemma dropWhile_none: "\<forall>c\<in>set xs. \<not> P c \<Longrightarrow> dropWhile P xs = xs"
  by (cases xs) auto

lemma trim_no_space: "\<forall>c\<in>set xs. \<not> is_space c \<Longrightarrow> trim xs = xs"
  by (simp add: trim_def dropWhile_none)

lemma trim_toLowerCase: "trim (toLowerCase s) = toLowerCase (trim s)"
  by (simp add: trim_def toLowerCase_def dropWhile_map rev_map comp_def is_space_toLowerChar)

lemma key_filtered: "key s = filter (\<lambda>c. \<not> (is_space c \<or> c = CHR ''-'' \<or> c = CHR ''_'')) (toUpperCase s)"
  unfolding key_def by (rule trim_no_space) simp

lemma norm_s_trim: "norm_s (trim q) = norm_s q"
  by (simp add: norm_s_def trim_idem)

lemma is_space_toUpperChar: "is_space (toUpperChar c) = is_space c"
  by (simp add: toUpperChar_def is_space_def)

lemma key_dropWhile: "key (dropWhile is_space s) = key s"
  by (induction s) (simp_all add: key_filtered toUpperCase_def is_space_toUpperChar)

lemma key_rev: "key (rev s) = rev (key s)"
  by (simp add: key_filtered toUpperCase_def rev_map rev_filter)

lemma key_trim: "key (trim q) = key q"
proof -
  have "key (trim q) = rev (key (dropWhile is_space (rev (dropWhile is_space q))))"
    by (simp add: trim_def key_rev)
  also have "\<dots> = key q" by (simp add: key_dropWhile key_rev)
  finally show ?thesis .
qed

section \<open>Lemmas on the edit distance\<close>

lemma lev_Nil_right [simp]: "levenshtein xs [] = length xs"
  by (cases xs) simp_all

lemma lev_sym: "levenshtein xs ys = levenshtein ys xs"
  by (induction xs ys rule: levenshtein.induct) (auto simp: min.commute min.left_commute)

lemma lev_Cons_left_le: "levenshtein (x # xs) ys \<le> levenshtein xs ys + 1"
  by (cases ys) simp_all

lemma lev_Cons_right_le: "levenshtein xs (y # ys) \<le> levenshtein xs ys + 1"
  by (cases xs) simp_all

lemma lev_le_Cons_left: "levenshtein xs ys \<le> levenshtein (x # xs) ys + 1"
proof (induction ys)
  case Nil
  show ?case by simp
next
  case (Cons y ys)
  have "levenshtein xs (y # ys) \<le> levenshtein xs ys + 1" by (rule lev_Cons_right_le)
  with Cons show ?case by (simp add: min_le_iff_disj)
qed

lemma lev_le_Cons_right: "levenshtein xs ys \<le> levenshtein xs (y # ys) + 1"
  using lev_le_Cons_left [of ys xs y] by (simp add: lev_sym [of xs] )

lemma lev_match: "levenshtein (x # xs) (x # ys) = levenshtein xs ys"
  using lev_le_Cons_left [of xs ys x] lev_le_Cons_right [of xs ys x]
    lev_Cons_left_le [of x xs "x # ys"] 
  by (simp add: min_def)

lemma nat_eq_by_le: "(\<And>k::nat. k \<le> x \<longleftrightarrow> k \<le> y) \<Longrightarrow> x = y"
  by (meson order_antisym order_refl)

lemma le_min_add: "k \<le> min a b + c \<longleftrightarrow> k \<le> a + c \<and> k \<le> b + (c::nat)"
  by (simp add: min_add_distrib_left)

lemma min9:
  fixes p q r s t u v w z d e :: nat
  shows "min (min (min (min (p + 1) (q + 1)) (r + d) + 1) (min (min (s + 1) (t + 1)) (u + d) + 1))
             (min (min (v + 1) (w + 1)) (z + d) + e)
       = min (min (min (min (p + 1) (s + 1)) (v + e) + 1) (min (min (q + 1) (t + 1)) (w + e) + 1))
             (min (min (r + 1) (u + 1)) (z + e) + d)"
  apply (rule nat_eq_by_le)
  apply (simp only: le_min_add min.bounded_iff)
  apply (simp only: add.assoc add.commute add.left_commute conj_ac)
  done

lemma lev_snoc_Nil_left:
  "levenshtein [a] (ys @ [b]) =
     min (min (Suc (length ys) + 1) (levenshtein [a] ys + 1)) (length ys + (if a = b then 0 else 1))"
  by (induction ys) (auto simp: min_def)

lemma lev_snoc_Nil_right:
  "levenshtein (xs @ [a]) [b] =
     min (min (levenshtein xs [b] + 1) (Suc (length xs) + 1)) (length xs + (if a = b then 0 else 1))"
  by (induction xs) (auto simp: min_def)

lemma lev_snoc:
  "levenshtein (xs @ [a]) (ys @ [b]) =
     min (min (levenshtein xs (ys @ [b]) + 1) (levenshtein (xs @ [a]) ys + 1))
         (levenshtein xs ys + (if a = b then 0 else 1))"
proof (induction xs ys rule: levenshtein.induct)
  case (1 ys)
  show ?case using lev_snoc_Nil_left [of a ys b] by simp
next
  case (2 x xs)
  show ?case using lev_snoc_Nil_right [of "x # xs" a b] by simp
next
  case (3 x xs y ys)
  let ?d = "if a = b then 0 else 1 :: nat" and ?e = "if x = y then 0 else 1 :: nat"
  have "levenshtein ((x # xs) @ [a]) ((y # ys) @ [b]) =
      min (min (levenshtein (xs @ [a]) ((y # ys) @ [b]) + 1)
               (levenshtein ((x # xs) @ [a]) (ys @ [b]) + 1))
          (levenshtein (xs @ [a]) (ys @ [b]) + ?e)"
    by (simp only: append_Cons levenshtein.simps)
  also have "\<dots> =
      min (min (min (min (levenshtein xs ((y # ys) @ [b]) + 1) (levenshtein (xs @ [a]) (y # ys) + 1))
                    (levenshtein xs (y # ys) + ?d) + 1)
               (min (min (levenshtein (x # xs) (ys @ [b]) + 1) (levenshtein ((x # xs) @ [a]) ys + 1))
                    (levenshtein (x # xs) ys + ?d) + 1))
          (min (min (levenshtein xs (ys @ [b]) + 1) (levenshtein (xs @ [a]) ys + 1))
               (levenshtein xs ys + ?d) + ?e)"
    by (simp only: 3)
  also have "\<dots> =
      min (min (min (min (levenshtein xs ((y # ys) @ [b]) + 1) (levenshtein (x # xs) (ys @ [b]) + 1))
                    (levenshtein xs (ys @ [b]) + ?e) + 1)
               (min (min (levenshtein (xs @ [a]) (y # ys) + 1) (levenshtein ((x # xs) @ [a]) ys + 1))
                    (levenshtein (xs @ [a]) ys + ?e) + 1))
          (min (min (levenshtein xs (y # ys) + 1) (levenshtein (x # xs) ys + 1))
               (levenshtein xs ys + ?e) + ?d)"
    by (rule min9)
  also have "\<dots> =
      min (min (levenshtein (x # xs) ((y # ys) @ [b]) + 1) (levenshtein ((x # xs) @ [a]) (y # ys) + 1))
          (levenshtein (x # xs) (y # ys) + ?d)"
    by (simp only: append_Cons levenshtein.simps)
  finally show ?case .
qed

lemma lev_rev: "levenshtein (rev xs) (rev ys) = levenshtein xs ys"
  by (induction xs ys rule: levenshtein.induct) (simp_all add: lev_snoc)

lemma lev_table_0_left: "j \<le> length b \<Longrightarrow> lev_table a b 0 j = j"
  by (simp add: lev_table_def)

lemma lev_table_0_right: "i \<le> length a \<Longrightarrow> lev_table a b i 0 = i"
  by (simp add: lev_table_def)

lemma lev_table_Suc:
  assumes "i < length a" "j < length b"
  shows "lev_table a b (Suc i) (Suc j) =
     (if a ! i = b ! j then lev_table a b i j
      else min (min (lev_table a b i j + 1) (lev_table a b i (Suc j) + 1)) (lev_table a b (Suc i) j + 1))"
proof -
  have ta: "rev (take (Suc i) a) = a ! i # rev (take i a)"
    using assms(1) by (simp add: take_Suc_conv_app_nth)
  have tb: "rev (take (Suc j) b) = b ! j # rev (take j b)"
    using assms(2) by (simp add: take_Suc_conv_app_nth)
  show ?thesis
  proof (cases "a ! i = b ! j")
    case True
    then show ?thesis unfolding lev_table_def ta tb by (simp only: lev_match refl if_True)
  next
    case False
    then show ?thesis
      by (simp add: lev_table_def ta tb min.commute min.left_commute)
  qed
qed

lemma editCell_ok:
  assumes "cells_ok a b i k st" "i < length a" "k < length b"
  shows "cells_ok a b i (Suc k) (editCell a b (Suc i) (Suc k) st)"
proof -
  obtain dp prev where st: "st = (dp, prev)" by (cases st)
  from assms(1) have len: "length dp = length b + 1"
    and new: "\<And>j. j \<le> k \<Longrightarrow> dp ! j = lev_table a b (Suc i) j"
    and old: "\<And>j. k < j \<Longrightarrow> j \<le> length b \<Longrightarrow> dp ! j = lev_table a b i j"
    and prev: "prev = lev_table a b i k"
    by (simp_all add: cells_ok_def st)
  have cur: "dp ! Suc k = lev_table a b i (Suc k)" using old [of "Suc k"] assms(3) by simp
  have left: "dp ! k = lev_table a b (Suc i) k" using new [of k] by simp
  let ?v = "lev_table a b (Suc i) (Suc k)"
  have step: "editCell a b (Suc i) (Suc k) st = (dp[Suc k := ?v], lev_table a b i (Suc k))"
    using lev_table_Suc [OF assms(2,3)]
    by (simp add: editCell_def st Let_def cur left prev)
  show ?thesis
    unfolding step cells_ok_def using len new old assms(3)
    by (auto simp: nth_list_update le_Suc_eq)
qed

lemma editCells_ok:
  assumes "row_ok a b i dp" "i < length a" "k \<le> length b"
  shows "cells_ok a b i k (fold (editCell a b (Suc i)) [1..<k + 1] (dp[0 := Suc i], dp ! 0))"
  using assms(3)
proof (induction k)
  case 0
  from assms(1,2) show ?case
    by (auto simp: cells_ok_def row_ok_def lev_table_0_right nth_list_update)
next
  case (Suc k)
  then have "cells_ok a b i k (fold (editCell a b (Suc i)) [1..<k + 1] (dp[0 := Suc i], dp ! 0))"
    by simp
  then show ?case using editCell_ok [OF _ assms(2)] Suc.prems by simp
qed

lemma editRow_ok:
  assumes "row_ok a b i dp" "i < length a"
  shows "row_ok a b (Suc i) (editRow a b (Suc i) dp)"
  using editCells_ok [OF assms, of "length b"]
  by (simp add: cells_ok_def row_ok_def editRow_def)

lemma editRows_ok:
  "k \<le> length a \<Longrightarrow> row_ok a b k (fold (editRow a b) [1..<k + 1] [0..<length b + 1])"
proof (induction k)
  case 0
  show ?case by (simp add: row_ok_def lev_table_0_left nth_upt del: upt_Suc)
next
  case (Suc k)
  then have "row_ok a b k (fold (editRow a b) [1..<k + 1] [0..<length b + 1])" by simp
  then show ?case using editRow_ok [of a b k] Suc.prems by simp
qed

lemma editDistance_levenshtein: "editDistance a b = levenshtein a b"
proof -
  have "fold (editRow a b) [1..<length a + 1] [0..<length b + 1] ! length b = levenshtein a b"
    using editRows_ok [of "length a" a b] by (simp add: row_ok_def lev_table_def lev_rev)
  then show ?thesis by (auto simp: editDistance_def Let_def)
qed

lemma startsWith_prefix: "startsWith hay q \<longleftrightarrow> prefix q hay"
  by (induction hay q rule: startsWith.induct) auto

lemma includes_sublist: "includes_s hay q \<longleftrightarrow> sublist q hay"
  by (induction hay) (auto simp: startsWith_prefix sublist_Cons_right)

section \<open>Lemmas on blank queries and on fetching\<close>

lemma dropWhile_all_iff: "(\<forall>x\<in>set (dropWhile P s). P x) \<longleftrightarrow> (\<forall>x\<in>set s. P x)"
proof
  assume a: "\<forall>x\<in>set (dropWhile P s). P x"
  have "dropWhile P s = []"
  proof (rule ccontr)
    assume ne: "dropWhile P s \<noteq> []"
    then have "\<not> P (hd (dropWhile P s))" by (rule hd_dropWhile)
    moreover from ne have "hd (dropWhile P s) \<in> set (dropWhile P s)" by (rule hd_in_set)
    ultimately show False using a by blast
  qed
  then show "\<forall>x\<in>set s. P x" by (simp add: dropWhile_eq_Nil_conv)
next
  assume "\<forall>x\<in>set s. P x"
  then show "\<forall>x\<in>set (dropWhile P s). P x" by (meson set_dropWhileD)
qed

lemma trim_empty_iff: "trim s = [] \<longleftrightarrow> list_all is_space s"
  by (simp add: trim_def dropWhile_eq_Nil_conv list_all_iff dropWhile_all_iff)

lemma blank_trim: "blankQuery query \<longleftrightarrow> trim (orEmpty query) = []"
  by (cases query) (simp_all add: blankQuery_def orEmpty_def trim_empty_iff)

lemma fetchText_ok: "fetchOk fetch p \<Longrightarrow> \<exists>t. fetchText fetch p = Inr t"
  by (auto simp: fetchOk_def fetchText_def split: sum.splits)

lemma fetchText_fail: "\<not> fetchOk fetch p \<Longrightarrow> \<exists>e. fetchText fetch p = Inl e"
  by (auto simp: fetchOk_def fetchText_def split: sum.splits)

lemmas money_defs = parseMoneyUSD_def orEmpty_def is_digit_def Number_dec_def digits_val_def
  digit_val_def Math_round_def

section \<open>Lemmas on maps built by loops\<close>

lemma ran_upd_subset: "ran (m(k \<mapsto> v)) \<subseteq> insert v (ran m)"
  by (auto simp: ran_def)

lemma find_append:
  "find P (xs @ ys) = (case find P xs of None \<Rightarrow> find P ys | Some x \<Rightarrow> Some x)"
  by (induction xs) auto

lemma fold_upd_lookup:
  "fold (\<lambda>x m. if c x then m(kf x \<mapsto> x) else m) xs m k =
     (case find (\<lambda>x. c x \<and> kf x = k) (rev xs) of Some x \<Rightarrow> Some x | None \<Rightarrow> m k)"
proof (induction xs arbitrary: m)
  case Nil
  show ?case by simp
next
  case (Cons x xs)
  show ?case
    by (simp add: Cons.IH find_append split: option.splits)
qed

lemma find_rev_Some: "find P (rev xs) = Some x \<Longrightarrow> x \<in> set xs \<and> P x"
proof -
  assume "find P (rev xs) = Some x"
  then obtain i where "i < length (rev xs)" "P (rev xs ! i)" "x = rev xs ! i"
    unfolding find_Some_iff by blast
  then show ?thesis using nth_mem [of i "rev xs"] by simp
qed

lemma find_rev_None: "find P (rev xs) = None \<longleftrightarrow> (\<forall>x\<in>set xs. \<not> P x)"
  by (simp add: find_None_iff Ball_def)

lemma find_rev_ex: "\<exists>x\<in>set xs. P x \<Longrightarrow> \<exists>x\<in>set xs. P x \<and> find P (rev xs) = Some x"
proof -
  assume ex: "\<exists>x\<in>set xs. P x"
  show ?thesis
  proof (cases "find P (rev xs)")
    case None
    with ex show ?thesis by (simp add: find_rev_None)
  next
    case (Some y)
    then show ?thesis using find_rev_Some [of P xs y] by blast
  qed
qed

lemma find_some_or_none:
  "(\<exists>x\<in>set xs. P x \<and> find P (rev xs) = Some x) \<or> (find P (rev xs) = None \<and> (\<forall>x\<in>set xs. \<not> P x))"
  using find_rev_ex [of xs P] find_rev_None [of P xs] by blast

lemma fold_upd_ran:
  "ran (fold (\<lambda>x m. if c x then m(kf x \<mapsto> x) else m) xs Map.empty) \<subseteq> set xs"
proof
  define f where "f = fold (\<lambda>x m. if c x then m(kf x \<mapsto> x) else m) xs Map.empty"
  fix y
  assume "y \<in> ran (fold (\<lambda>x m. if c x then m(kf x \<mapsto> x) else m) xs Map.empty)"
  then have "y \<in> ran f" by (simp only: f_def)
  then obtain k where k: "f k = Some y" by (auto simp: ran_def)
  have "f k = (case find (\<lambda>x. c x \<and> kf x = k) (rev xs) of Some x \<Rightarrow> Some x | None \<Rightarrow> None)"
    unfolding f_def by (simp only: fold_upd_lookup)
  with k have "find (\<lambda>x. c x \<and> kf x = k) (rev xs) = Some y"
    by (cases "find (\<lambda>x. c x \<and> kf x = k) (rev xs)") simp_all
  then show "y \<in> set xs" by (rule find_rev_Some [THEN conjunct1])
qed

lemma indexPartId_fold: "fold indexPartId ps = fold (\<lambda>p m. if p_id p \<noteq> [] then m(p_id p \<mapsto> p) else m) ps"
  by (rule arg_cong [where f = "\<lambda>f. fold f ps"]) (simp add: fun_eq_iff indexPartId_def)

lemma indexPartIdLower_fold:
  "fold indexPartIdLower ps = fold (\<lambda>p m. if p_id p \<noteq> [] then m(norm_s (p_id p) \<mapsto> p) else m) ps"
  by (rule arg_cong [where f = "\<lambda>f. fold f ps"]) (simp add: fun_eq_iff indexPartIdLower_def)

lemma indexPartNumber_fold:
  "fold indexPartNumber ps = fold (\<lambda>p m. if p_number p \<noteq> [] then m(norm_s (p_number p) \<mapsto> p) else m) ps"
  by (rule arg_cong [where f = "\<lambda>f. fold f ps"]) (simp add: fun_eq_iff indexPartNumber_def)

lemma indexModel_snd:
  "snd (fold indexModel ms ix) =
     fold (\<lambda>m by. if m_modelNumber m \<noteq> [] then by(norm_s (m_modelNumber m) \<mapsto> m) else by) ms (snd ix)"
  by (induction ms arbitrary: ix) (simp_all add: indexModel_def Let_def)

lemma indexModel_fst_ran: "ran (fst (fold indexModel ms ix)) \<subseteq> ran (fst ix) \<union> set ms"
proof (induction ms arbitrary: ix)
  case Nil
  show ?case by simp
next
  case (Cons m ms)
  have "ran (fst (indexModel m ix)) \<subseteq> insert m (ran (fst ix))"
    using ran_upd_subset [of "fst ix" "m_id m" m]
      ran_upd_subset [of "fst ix" "m_modelNumber m" m]
      ran_upd_subset [of "(fst ix)(m_id m \<mapsto> m)" "m_modelNumber m" m]
    by (auto simp: indexModel_def Let_def)
  with Cons.IH [of "indexModel m ix"] show ?case by auto
qed

lemma AList_update_set: "set (AList.update k v d) \<subseteq> insert (k, v) (set d)"
  by (induction d) auto

lemma schemsById_values: "snd ` set (fold (\<lambda>s d. AList.update (s_id s) s d) ss d) \<subseteq> snd ` set d \<union> set ss"
proof (induction ss arbitrary: d)
  case Nil
  show ?case by simp
next
  case (Cons s ss)
  have "snd ` set (AList.update (s_id s) s d) \<subseteq> insert s (snd ` set d)"
    using AList_update_set [of "s_id s" s d] by auto
  with Cons.IH [of "AList.update (s_id s) s d"] show ?case by auto
qed

lemma groupBy_fold:
  "fold (\<lambda>x by. by(k x \<mapsto> (case by (k x) of None \<Rightarrow> [] | Some l \<Rightarrow> l) @ [x])) xs m g =
     (if filter (\<lambda>x. k x = g) xs = [] then m g
      else Some ((case m g of None \<Rightarrow> [] | Some l \<Rightarrow> l) @ filter (\<lambda>x. k x = g) xs))"
  by (induction xs arbitrary: m) (auto split: option.splits)

lemma groupBy_lookup:
  "groupBy k xs g =
     (if filter (\<lambda>x. k x = g) xs = [] then None else Some (filter (\<lambda>x. k x = g) xs))"
  by (simp add: groupBy_def groupBy_fold)

section \<open>Lemmas on sorting\<close>

lemma mset_insertWith: "mset (insertWith cmp x xs) = add_mset x (mset xs)"
  by (induction xs) auto

lemma mset_sortWith: "mset (sortWith cmp xs) = mset xs"
  by (induction xs) (simp_all add: sortWith_def mset_insertWith)

lemma set_sortWith: "set (sortWith cmp xs) = set xs"
  by (metis mset_sortWith set_mset_mset)





lemma grouped_sorted_lookup:
  "(map_option (sortWith cmp) \<circ> groupBy k xs) g =
     (if filter (\<lambda>x. k x = g) xs = [] then None
      else Some (sortWith cmp (filter (\<lambda>x. k x = g) xs)))"
  by (simp add: groupBy_lookup)

lemma grouped_sorted_ran: "(\<Union>l\<in>ran (map_option (sortWith cmp) \<circ> groupBy k xs). set l) \<subseteq> set xs"
  by (auto simp: ran_def groupBy_lookup set_sortWith split: if_splits)

section \<open>The fields of the built catalog\<close>

lemma build_models: "models (build lc mr sr lr pr) = filter validModel (map mkModel mr)"
  by (simp add: build_def Let_def validModel_def [abs_def])

lemma build_schematics: "schematics (build lc mr sr lr pr) = filter validSchematic (map mkSchematic sr)"
  by (simp add: build_def Let_def validSchematic_def [abs_def])

lemma build_schematicParts:
  "schematicParts (build lc mr sr lr pr) = filter validLink (map mkSchematicPart lr)"
  by (simp add: build_def Let_def validLink_def [abs_def])

lemma build_parts: "parts (build lc mr sr lr pr) = filter validPart (map mkPart pr)"
  by (simp add: build_def Let_def validPart_def [abs_def])

lemma build_modelsById: "modelsById (build lc mr sr lr pr) = fst (fold indexModel (models (build lc mr sr lr pr)) (Map.empty, Map.empty))"
  by (simp add: build_def Let_def)

lemma build_modelsByNumber: "modelsByNumber (build lc mr sr lr pr) = snd (fold indexModel (models (build lc mr sr lr pr)) (Map.empty, Map.empty))"
  by (simp add: build_def Let_def)

lemma build_schemsById:
  "schemsById (build lc mr sr lr pr) = fold (\<lambda>s d. AList.update (s_id s) s d) (schematics (build lc mr sr lr pr)) []"
  by (simp add: build_def Let_def)

lemma build_schemsByModel:
  "schemsByModel (build lc mr sr lr pr) =
     map_option (sortWith (schematicCompare lc)) \<circ> groupBy s_modelId (schematics (build lc mr sr lr pr))"
  by (simp add: build_def Let_def)

lemma build_linkBySchematic:
  "linkBySchematic (build lc mr sr lr pr) =
     map_option (sortWith (linkCompare lc)) \<circ> groupBy l_schematicId (schematicParts (build lc mr sr lr pr))"
  by (simp add: build_def Let_def)

lemma build_partsById: "partsById (build lc mr sr lr pr) = fold indexPartId (parts (build lc mr sr lr pr)) Map.empty"
  by (simp add: build_def Let_def)

lemma build_partsByIdLower:
  "partsByIdLower (build lc mr sr lr pr) = fold indexPartIdLower (parts (build lc mr sr lr pr)) Map.empty"
  by (simp add: build_def Let_def)

lemma build_partsByNumber:
  "partsByNumber (build lc mr sr lr pr) = fold indexPartNumber (parts (build lc mr sr lr pr)) Map.empty"
  by (simp add: build_def Let_def)

lemma held_models: "heldModels (build lc mr sr lr pr) = set (models (build lc mr sr lr pr))"
proof -
  let ?db = "build lc mr sr lr pr"
  have "ran (modelsById ?db) \<subseteq> set (models ?db)"
    using indexModel_fst_ran [of "models ?db" "(Map.empty, Map.empty)"] by (simp add: build_modelsById)
  moreover have "ran (modelsByNumber ?db) \<subseteq> set (models ?db)"
    unfolding build_modelsByNumber indexModel_snd by (simp add: fold_upd_ran)
  ultimately show ?thesis by (auto simp: heldModels_def)
qed

lemma held_schematics: "heldSchematics (build lc mr sr lr pr) = set (schematics (build lc mr sr lr pr))"
proof -
  let ?db = "build lc mr sr lr pr"
  have "snd ` set (schemsById ?db) \<subseteq> set (schematics ?db)"
    using schemsById_values [of "schematics ?db" "[]"] by (simp add: build_schemsById)
  moreover have "(\<Union>l\<in>ran (schemsByModel ?db). set l) \<subseteq> set (schematics ?db)"
    unfolding build_schemsByModel by (rule grouped_sorted_ran)
  ultimately show ?thesis unfolding heldSchematics_def by blast
qed

lemma held_links: "heldLinks (build lc mr sr lr pr) = set (schematicParts (build lc mr sr lr pr))"
proof -
  let ?db = "build lc mr sr lr pr"
  have "(\<Union>l\<in>ran (linkBySchematic ?db). set l) \<subseteq> set (schematicParts ?db)"
    unfolding build_linkBySchematic by (rule grouped_sorted_ran)
  then show ?thesis unfolding heldLinks_def by blast
qed

lemma held_parts: "heldParts (build lc mr sr lr pr) = set (parts (build lc mr sr lr pr))"
proof -
  let ?db = "build lc mr sr lr pr"
  have "ran (partsById ?db) \<subseteq> set (parts ?db)" "ran (partsByIdLower ?db) \<subseteq> set (parts ?db)"
    "ran (partsByNumber ?db) \<subseteq> set (parts ?db)"
    unfolding build_partsById build_partsByIdLower build_partsByNumber
      indexPartId_fold indexPartIdLower_fold indexPartNumber_fold
    by (rule fold_upd_ran)+
  then show ?thesis unfolding heldParts_def by blast
qed

section \<open>Lemmas on the order of the links\<close>











lemma load_runSearch_csv:
  "trim q \<noteq> [] \<Longrightarrow> load lc fetch cache = (Inr db, cache') \<Longrightarrow>
     runSearch_csv lc fetch cache (Some q) = (resolveExact db (trim q), cache')"
  by (simp add: runSearch_csv_def orEmpty_def)

section \<open>Lemmas on the exact lookups\<close>

lemma modelsByNumber_lookup:
  "modelsByNumber (build lc mr sr lr pr) k =
     find (\<lambda>m. m_modelNumber m \<noteq> [] \<and> norm_s (m_modelNumber m) = k) (rev (models (build lc mr sr lr pr)))"
  unfolding build_modelsByNumber indexModel_snd
  by (simp only: fold_upd_lookup snd_conv) (simp split: option.splits)

lemma partsById_lookup:
  "partsById (build lc mr sr lr pr) k =
     find (\<lambda>p. p_id p \<noteq> [] \<and> p_id p = k) (rev (parts (build lc mr sr lr pr)))"
  unfolding build_partsById indexPartId_fold
  by (simp only: fold_upd_lookup) (simp split: option.splits)

lemma partsByIdLower_lookup:
  "partsByIdLower (build lc mr sr lr pr) k =
     find (\<lambda>p. p_id p \<noteq> [] \<and> norm_s (p_id p) = k) (rev (parts (build lc mr sr lr pr)))"
  unfolding build_partsByIdLower indexPartIdLower_fold
  by (simp only: fold_upd_lookup) (simp split: option.splits)

lemma partsByNumber_lookup:
  "partsByNumber (build lc mr sr lr pr) k =
     find (\<lambda>p. p_number p \<noteq> [] \<and> norm_s (p_number p) = k) (rev (parts (build lc mr sr lr pr)))"
  unfolding build_partsByNumber indexPartNumber_fold
  by (simp only: fold_upd_lookup) (simp split: option.splits)

lemma getPart_match:
  assumes "\<exists>p\<in>set (parts (build lc mr sr lr pr)). partMatch_csv p q"
  shows "\<exists>p\<in>set (parts (build lc mr sr lr pr)).
           partMatch_csv p q \<and> getPartByIdOrNumber (build lc mr sr lr pr) (trim q) = Some p"
proof -
  let ?db = "build lc mr sr lr pr"
  let ?P1 = "\<lambda>p. p_id p \<noteq> [] \<and> p_id p = trim q"
  let ?P2 = "\<lambda>p. p_id p \<noteq> [] \<and> norm_s (p_id p) = norm_s q"
  let ?P3 = "\<lambda>p. p_number p \<noteq> [] \<and> norm_s (p_number p) = norm_s q"
  have get: "getPartByIdOrNumber ?db (trim q) =
      (case find ?P1 (rev (parts ?db)) of Some p \<Rightarrow> Some p | None \<Rightarrow>
       case find ?P2 (rev (parts ?db)) of Some p \<Rightarrow> Some p | None \<Rightarrow> find ?P3 (rev (parts ?db)))"
    by (simp only: getPartByIdOrNumber_def partsById_lookup partsByIdLower_lookup
        partsByNumber_lookup norm_s_trim)
  consider p where "p \<in> set (parts ?db)" "?P1 p" "find ?P1 (rev (parts ?db)) = Some p"
    | p where "find ?P1 (rev (parts ?db)) = None" "p \<in> set (parts ?db)" "?P2 p"
        "find ?P2 (rev (parts ?db)) = Some p"
    | p where "find ?P1 (rev (parts ?db)) = None" "find ?P2 (rev (parts ?db)) = None"
        "p \<in> set (parts ?db)" "?P3 p" "find ?P3 (rev (parts ?db)) = Some p"
    | "\<forall>p\<in>set (parts ?db). \<not> ?P1 p" "\<forall>p\<in>set (parts ?db). \<not> ?P2 p" "\<forall>p\<in>set (parts ?db). \<not> ?P3 p"
    using find_some_or_none [of "parts ?db" ?P1] find_some_or_none [of "parts ?db" ?P2]
      find_some_or_none [of "parts ?db" ?P3]
    by blast
  then show ?thesis
  proof cases
    case 1
    then show ?thesis unfolding get by (auto simp: partMatch_csv_def)
  next
    case 2
    then show ?thesis unfolding get by (auto simp: partMatch_csv_def)
  next
    case 3
    then show ?thesis unfolding get by (auto simp: partMatch_csv_def)
  next
    case 4
    with assms show ?thesis by (auto simp: partMatch_csv_def)
  qed
qed

lemma setModelKeys_lookup:
  "fold setModelKeys ms by k =
     (case find (\<lambda>m. fm_modelNumber m \<noteq> []
                    \<and> (key (fm_modelNumber m) = k \<or> (fm_id m \<noteq> [] \<and> key (fm_id m) = k))) (rev ms) of
        Some m \<Rightarrow> Some m | None \<Rightarrow> by k)"
proof (induction ms arbitrary: "by")
  case Nil
  show ?case by simp
next
  case (Cons m ms)
  let ?P = "\<lambda>m. fm_modelNumber m \<noteq> []
                    \<and> (key (fm_modelNumber m) = k \<or> (fm_id m \<noteq> [] \<and> key (fm_id m) = k))"
  have step: "setModelKeys m by k = (if ?P m then Some m else by k)"
    by (simp add: setModelKeys_def)
  have "fold setModelKeys (m # ms) by k = fold setModelKeys ms (setModelKeys m by) k" by simp
  also have "\<dots> = (case find ?P (rev ms) of Some x \<Rightarrow> Some x | None \<Rightarrow> setModelKeys m by k)"
    by (rule Cons.IH)
  also have "\<dots> = (case find ?P (rev (m # ms)) of Some x \<Rightarrow> Some x | None \<Rightarrow> by k)"
    unfolding step by (auto simp: find_append split: option.splits)
  finally show ?case .
qed

lemma setPartNumberKey_fold:
  "fold setPartNumberKey ps = fold (\<lambda>p m. if fp_number p \<noteq> [] then m(key (fp_number p) \<mapsto> p) else m) ps"
  by (rule arg_cong [where f = "\<lambda>f. fold f ps"]) (simp add: fun_eq_iff setPartNumberKey_def)

lemma setPartIdKey_fold:
  "fold setPartIdKey ps = fold (\<lambda>p m. if fp_id p \<noteq> [] then m(key (fp_id p) \<mapsto> p) else m) ps"
  by (rule arg_cong [where f = "\<lambda>f. fold f ps"]) (simp add: fun_eq_iff setPartIdKey_def)

lemma modelByKey_lookup:
  "modelByKey (db_ix (initDB ms ss ps)) k =
     find (\<lambda>m. fm_modelNumber m \<noteq> []
               \<and> (key (fm_modelNumber m) = k \<or> (fm_id m \<noteq> [] \<and> key (fm_id m) = k))) (rev ms)"
  by (simp add: initDB_def setModelKeys_lookup split: option.splits)

lemma partByNumberKey_lookup:
  "partByNumberKey (db_ix (initDB ms ss ps)) k =
     find (\<lambda>p. fp_number p \<noteq> [] \<and> key (fp_number p) = k) (rev ps)"
  unfolding initDB_def setPartNumberKey_fold
  by (simp only: ix.simps fdb.simps fold_upd_lookup) (simp split: option.splits)

lemma partByIdKey_lookup:
  "partByIdKey (db_ix (initDB ms ss ps)) k =
     find (\<lambda>p. fp_id p \<noteq> [] \<and> key (fp_id p) = k) (rev ps)"
  unfolding initDB_def setPartIdKey_fold
  by (simp only: ix.simps fdb.simps fold_upd_lookup) (simp split: option.splits)

lemma fuzzyPart_match:
  assumes "\<exists>p\<in>set ps. partMatch_fuzzy p q"
  shows "\<exists>p\<in>set ps. partMatch_fuzzy p q
           \<and> (case partByNumberKey (db_ix (initDB ms ss ps)) (key q) of
                Some p \<Rightarrow> Some p | None \<Rightarrow> partByIdKey (db_ix (initDB ms ss ps)) (key q)) = Some p"
proof -
  let ?P1 = "\<lambda>p. fp_number p \<noteq> [] \<and> key (fp_number p) = key q"
  let ?P2 = "\<lambda>p. fp_id p \<noteq> [] \<and> key (fp_id p) = key q"
  consider p where "p \<in> set ps" "?P1 p" "find ?P1 (rev ps) = Some p"
    | p where "find ?P1 (rev ps) = None" "p \<in> set ps" "?P2 p" "find ?P2 (rev ps) = Some p"
    | "\<forall>p\<in>set ps. \<not> ?P1 p" "\<forall>p\<in>set ps. \<not> ?P2 p"
    using find_some_or_none [of ps ?P1] find_some_or_none [of ps ?P2] by blast
  then show ?thesis
  proof cases
    case 1
    then show ?thesis unfolding partByNumberKey_lookup partByIdKey_lookup
      by (auto simp: partMatch_fuzzy_def)
  next
    case 2
    then show ?thesis unfolding partByNumberKey_lookup partByIdKey_lookup
      by (auto simp: partMatch_fuzzy_def)
  next
    case 3
    with assms show ?thesis by (auto simp: partMatch_fuzzy_def)
  qed
qed

section \<open>Lemmas on the sample data\<close>



lemmas row_defs = modelRow_def schematicRow_def linkRow_def partRow_def mkModel_def mkSchematic_def
  mkSchematicPart_def mkPart_def str_field_def int_field_def orEmpty_def trim_def is_space_def
  toInt_def parseInt_def is_digit_def digits_val_def digit_val_def

lemmas key_defs = key_filtered toUpperCase_def toUpperChar_def is_space_def

lemmas norm_defs = norm_s_def toLowerCase_def toLowerChar_def trim_def is_space_def

lemmas uri_defs = encodeURIComponent_def unreserved_def


lemmas parse_defs = parseCSV_def rowObject_def canonicalHeader_def toLowerCase_def toLowerChar_def
  is_space_def cell_def trim_def upt_rec

lemma scan_modelsCsv:
  "scanCSV modelsCsv False [] [] [] =
     [[''id'', ''brand'', ''Model Number''], [''M1'', ''Acme'', ''X-100''], [[]]]"
  by (simp add: modelsCsv_def)

lemma parse_modelsCsv: "parseCSV modelsCsv = [modelRow ''M1'' ''Acme'' ''X-100'']"
  by (simp add: scan_modelsCsv parse_defs modelRow_def)

lemma scan_schematicsCsv:
  "scanCSV schematicsCsv False [] [] [] =
     [[''id'', ''modelID'', ''name'', ''order''], [''x-100'', ''M1'', ''Door'', ''1''],
      [''p7'', ''M1'', ''Drum'', ''2''], [[]]]"
  by (simp add: schematicsCsv_def)

lemma parse_schematicsCsv:
  "parseCSV schematicsCsv = [schematicRow ''x-100'' ''M1'' ''Door'' ''1'', schematicRow ''p7'' ''M1'' ''Drum'' ''2'']"
  by (simp add: scan_schematicsCsv parse_defs schematicRow_def)

lemma scan_partsCsv:
  "scanCSV partsCsv False [] [] [] =
     [[''id'', ''number'', ''price''], [''x-100'', ''PN-1'', ''$12.50''], [''P7'', ''PN-7'', []], [[]]]"
  by (simp add: partsCsv_def)

lemma parse_partsCsv:
  "parseCSV partsCsv = [partRow ''x-100'' ''PN-1'' ''$12.50'', partRow ''P7'' ''PN-7'' []]"
  by (simp add: scan_partsCsv parse_defs partRow_def)

lemma served_models:
  "models servedCatalog = [\<lparr>m_id = ''M1'', m_brand = ''Acme'', m_modelNumber = ''X-100''\<rparr>]"
  unfolding servedCatalog_def build_models parse_modelsCsv
  by (simp add: validModel_def row_defs)

lemma served_parts:
  "parts servedCatalog =
     [\<lparr>p_id = ''x-100'', p_number = ''PN-1'', p_manufacturer = [], p_name = [], p_description = [],
       p_productStatus = [], p_inventory = 0, p_price = Some 12.5\<rparr>,
      \<lparr>p_id = ''P7'', p_number = ''PN-7'', p_manufacturer = [], p_name = [], p_description = [],
       p_productStatus = [], p_inventory = 0, p_price = None\<rparr>]"
  unfolding servedCatalog_def build_parts parse_partsCsv
  by (simp add: validPart_def row_defs money_defs)

lemma served_schematics:
  "map_of (schemsById servedCatalog) ''x-100'' \<noteq> None" "map_of (schemsById servedCatalog) ''p7'' \<noteq> None"
  unfolding servedCatalog_def build_schemsById build_schematics parse_schematicsCsv
  by (simp_all add: validSchematic_def row_defs)

lemma load_served: "load codeUnitCompare sampleServer None = (Inr servedCatalog, Some servedCatalog)"
  by (simp add: load_def fetchText_def sampleServer_def servedCatalog_def Let_def)

lemma load_cached: "load lc fetch (Some db) = (Inr db, Some db)"
  by (simp add: load_def)

section \<open>Precedence of the exact resolution\<close>

text \<open>
  C1, as amended. For a query that is not blank, once \<^verbatim>\<open>load\<close> has returned a catalog
  (fetched and built on the first search, cached afterwards): when some model matches the
  query, \<^verbatim>\<open>runSearch\<close> navigates to the page of a matching model, whatever parts and
  schematics match as well; when no model matches and some part does, it navigates to the
  page of a matching part, whatever schematics match. A model matches by its normalised
  model number in the CSV catalog, and in the suggesting search by the \<^verbatim>\<open>key\<close> of its model
  number or of its id provided it has a model number.
\<close>

theorem exact_precedence:
  assumes "\<not> blankQuery (Some q)"
    and "load lc fetch cache = (Inr db, cache')" and "db = build lc mr sr lr pr"
  shows "((\<exists>m\<in>set (models db). modelMatch_csv m q) \<longrightarrow>
            (\<exists>m\<in>set (models db). modelMatch_csv m q
               \<and> runSearch_csv lc fetch cache (Some q)
                   = (Navigate (''model.html?id='' @ encodeURIComponent (m_modelNumber m)), cache')))
       \<and> (\<not> (\<exists>m\<in>set (models db). modelMatch_csv m q) \<and> (\<exists>p\<in>set (parts db). partMatch_csv p q) \<longrightarrow>
            (\<exists>p\<in>set (parts db). partMatch_csv p q
               \<and> runSearch_csv lc fetch cache (Some q)
                   = (Navigate (''product.html?id='' @ encodeURIComponent (p_id p)), cache')))
       \<and> ((\<exists>m\<in>set ms. modelMatch_fuzzy m q) \<longrightarrow>
            (\<exists>m\<in>set ms. modelMatch_fuzzy m q
               \<and> runSearch_fuzzy (Inr (initDB ms ss ps)) (Some q)
                   = Inr [Go (''model.html?id='' @ encodeURIComponent (fm_modelNumber m))]))
       \<and> (\<not> (\<exists>m\<in>set ms. modelMatch_fuzzy m q) \<and> (\<exists>p\<in>set ps. partMatch_fuzzy p q) \<longrightarrow>
            (\<exists>p\<in>set ps. partMatch_fuzzy p q
               \<and> runSearch_fuzzy (Inr (initDB ms ss ps)) (Some q)
                   = Inr [Go (''parts.html?id='' @ encodeURIComponent (orStr (fp_number p) (fp_id p)))]))"
  unfolding assms(3)
proof (intro conjI impI)
  let ?db = "build lc mr sr lr pr"
  from assms(1) have q: "trim q \<noteq> []" by (simp add: blank_trim orEmpty_def)
  have run: "runSearch_csv lc fetch cache (Some q) = (resolveExact ?db (trim q), cache')"
    using q assms(2) unfolding assms(3) by (rule load_runSearch_csv)
  let ?M = "\<lambda>m. m_modelNumber m \<noteq> [] \<and> norm_s (m_modelNumber m) = norm_s q"
  have byNumber: "modelsByNumber ?db (norm_s (trim q)) = find ?M (rev (models ?db))"
    by (simp only: modelsByNumber_lookup norm_s_trim)
  {
    assume "\<exists>m\<in>set (models ?db). modelMatch_csv m q"
    then have "\<exists>m\<in>set (models ?db). ?M m" by (simp add: modelMatch_csv_def)
    then obtain m where m: "m \<in> set (models ?db)" "?M m" "find ?M (rev (models ?db)) = Some m"
      using find_rev_ex [of "models ?db" ?M] by blast
    then have "resolveExact ?db (trim q)
        = Navigate (''model.html?id='' @ encodeURIComponent (m_modelNumber m))"
      by (simp add: resolveExact_def Let_def byNumber)
    with m show "\<exists>m\<in>set (models ?db). modelMatch_csv m q
               \<and> runSearch_csv lc fetch cache (Some q)
                   = (Navigate (''model.html?id='' @ encodeURIComponent (m_modelNumber m)), cache')"
      unfolding run by (auto simp: modelMatch_csv_def)
  }
  {
    assume a: "\<not> (\<exists>m\<in>set (models ?db). modelMatch_csv m q)
            \<and> (\<exists>p\<in>set (parts ?db). partMatch_csv p q)"
    then have "\<forall>m\<in>set (models ?db). \<not> ?M m" by (simp add: modelMatch_csv_def)
    then have none: "find ?M (rev (models ?db)) = None" by (simp only: find_rev_None)
    from a obtain p where p: "p \<in> set (parts ?db)" "partMatch_csv p q"
      "getPartByIdOrNumber ?db (trim q) = Some p"
      using getPart_match [of lc mr sr lr pr q] by blast
    then have "resolveExact ?db (trim q)
        = Navigate (''product.html?id='' @ encodeURIComponent (p_id p))"
      by (simp add: resolveExact_def Let_def byNumber none)
    with p show "\<exists>p\<in>set (parts ?db). partMatch_csv p q
               \<and> runSearch_csv lc fetch cache (Some q)
                   = (Navigate (''product.html?id='' @ encodeURIComponent (p_id p)), cache')"
      unfolding run by auto
  }
  let ?F = "\<lambda>m. fm_modelNumber m \<noteq> []
               \<and> (key (fm_modelNumber m) = key q \<or> (fm_id m \<noteq> [] \<and> key (fm_id m) = key q))"
  have byKey: "modelByKey (db_ix (initDB ms ss ps)) (key q) = find ?F (rev ms)"
    by (simp only: modelByKey_lookup)
  {
    assume "\<exists>m\<in>set ms. modelMatch_fuzzy m q"
    then have "\<exists>m\<in>set ms. ?F m" by (simp add: modelMatch_fuzzy_def)
    then obtain m where m: "m \<in> set ms" "?F m" "find ?F (rev ms) = Some m"
      using find_rev_ex [of ms ?F] by blast
    then have "runSearch_fuzzy (Inr (initDB ms ss ps)) (Some q)
        = Inr [Go (''model.html?id='' @ encodeURIComponent (fm_modelNumber m))]"
      using q by (simp add: runSearch_fuzzy_def Let_def orEmpty_def key_trim byKey orStr_def)
    with m show "\<exists>m\<in>set ms. modelMatch_fuzzy m q
               \<and> runSearch_fuzzy (Inr (initDB ms ss ps)) (Some q)
                   = Inr [Go (''model.html?id='' @ encodeURIComponent (fm_modelNumber m))]"
      by (auto simp: modelMatch_fuzzy_def)
  }
  {
    assume a: "\<not> (\<exists>m\<in>set ms. modelMatch_fuzzy m q) \<and> (\<exists>p\<in>set ps. partMatch_fuzzy p q)"
    then have "\<forall>m\<in>set ms. \<not> ?F m" by (simp add: modelMatch_fuzzy_def)
    then have none: "find ?F (rev ms) = None" by (simp only: find_rev_None)
    from a obtain p where p: "p \<in> set ps" "partMatch_fuzzy p q"
      "(case partByNumberKey (db_ix (initDB ms ss ps)) (key q) of
          Some p \<Rightarrow> Some p | None \<Rightarrow> partByIdKey (db_ix (initDB ms ss ps)) (key q)) = Some p"
      using fuzzyPart_match [of ps q ms ss] by blast
    then have "runSearch_fuzzy (Inr (initDB ms ss ps)) (Some q)
        = Inr [Go (''parts.html?id='' @ encodeURIComponent (orStr (fp_number p) (fp_id p)))]"
      using q by (simp add: runSearch_fuzzy_def Let_def orEmpty_def byKey none key_trim)
    with p show "\<exists>p\<in>set ps. partMatch_fuzzy p q
               \<and> runSearch_fuzzy (Inr (initDB ms ss ps)) (Some q)
                   = Inr [Go (''parts.html?id='' @ encodeURIComponent (orStr (fp_number p) (fp_id p)))]"
      by auto
  }
qed

text \<open>
  The first search of a page loads the served catalog and routes to the model although a
  part and a schematic match too; the next search, on the cached catalog, finds no model
  and routes to the part although a schematic matches too. The same two queries against
  the sample database of the suggesting search.
\<close>

theorem exact_precedence_witness:
  "\<not> blankQuery (Some '' x-100 '') \<and> \<not> blankQuery (Some ''p7'')
   \<and> load codeUnitCompare sampleServer None = (Inr servedCatalog, Some servedCatalog)
   \<and> (\<exists>m\<in>set (models servedCatalog). modelMatch_csv m '' x-100 '')
   \<and> (\<exists>p\<in>set (parts servedCatalog). partMatch_csv p '' x-100 '')
   \<and> map_of (schemsById servedCatalog) ''x-100'' \<noteq> None
   \<and> runSearch_csv codeUnitCompare sampleServer None (Some '' x-100 '')
       = (Navigate ''model.html?id=X-100'', Some servedCatalog)
   \<and> \<not> (\<exists>m\<in>set (models servedCatalog). modelMatch_csv m ''p7'')
   \<and> (\<exists>p\<in>set (parts servedCatalog). partMatch_csv p ''p7'')
   \<and> map_of (schemsById servedCatalog) ''p7'' \<noteq> None
   \<and> runSearch_csv codeUnitCompare notFound (Some servedCatalog) (Some ''p7'')
       = (Navigate ''product.html?id=P7'', Some servedCatalog)
   \<and> (\<exists>m\<in>set (db_models sampleDB). modelMatch_fuzzy m '' x-100 '')
   \<and> (\<exists>p\<in>set (db_parts sampleDB). partMatch_fuzzy p '' x-100 '')
   \<and> schematicByKey (db_ix sampleDB) (key '' x-100 '') \<noteq> None
   \<and> runSearch_fuzzy (Inr sampleDB) (Some '' x-100 '') = Inr [Go ''model.html?id=X-100'']
   \<and> \<not> (\<exists>m\<in>set (db_models sampleDB). modelMatch_fuzzy m ''p7'')
   \<and> (\<exists>p\<in>set (db_parts sampleDB). partMatch_fuzzy p ''p7'')
   \<and> schematicByKey (db_ix sampleDB) (key ''p7'') \<noteq> None
   \<and> runSearch_fuzzy (Inr sampleDB) (Some ''p7'') = Inr [Go ''parts.html?id=P-7'']"
proof -
  have b1: "\<not> blankQuery (Some '' x-100 '')" and b2: "\<not> blankQuery (Some ''p7'')"
    by (simp_all add: blankQuery_def is_space_def)
  note t1 = exact_precedence [OF b1 load_served servedCatalog_def]
  note t2 = exact_precedence [OF b2 load_cached servedCatalog_def, of notFound]
  have m1: "\<exists>m\<in>set (models servedCatalog). modelMatch_csv m '' x-100 ''"
    by (simp add: served_models modelMatch_csv_def norm_defs)
  have p1: "\<exists>p\<in>set (parts servedCatalog). partMatch_csv p '' x-100 ''"
    by (simp add: served_parts partMatch_csv_def norm_defs)
  have r1: "runSearch_csv codeUnitCompare sampleServer None (Some '' x-100 '')
       = (Navigate ''model.html?id=X-100'', Some servedCatalog)"
    using t1 [THEN conjunct1, rule_format, OF m1] by (simp add: served_models uri_defs)
  have m2: "\<not> (\<exists>m\<in>set (models servedCatalog). modelMatch_csv m ''p7'')"
    by (simp add: served_models modelMatch_csv_def norm_defs)
  have p2: "\<exists>p\<in>set (parts servedCatalog). partMatch_csv p ''p7''"
    by (simp add: served_parts partMatch_csv_def norm_defs)
  have r2: "runSearch_csv codeUnitCompare notFound (Some servedCatalog) (Some ''p7'')
       = (Navigate ''product.html?id=P7'', Some servedCatalog)"
    using t2 [THEN conjunct2, THEN conjunct1, rule_format, OF conjI [OF m2 p2]]
    by (auto simp: served_parts partMatch_csv_def norm_defs uri_defs)
  note s1 = served_schematics(1) and s2 = served_schematics(2)
  have fm: "db_models sampleDB = [\<lparr>fm_id = ''M1'', fm_brand = ''Acme'', fm_modelNumber = ''X-100''\<rparr>]"
    and fp: "db_parts sampleDB =
      [\<lparr>fp_id = ''x_100'', fp_number = ''PN-1'', fp_manufacturer = [], fp_name = [],
        fp_description = [], fp_productStatus = [], fp_inventory = 0, fp_price = 0\<rparr>,
       \<lparr>fp_id = ''7'', fp_number = ''P-7'', fp_manufacturer = [], fp_name = [],
        fp_description = [], fp_productStatus = [], fp_inventory = 0, fp_price = 0\<rparr>]"
    by (simp_all add: sampleDB_def initDB_def)
  note u1 = exact_precedence [OF b1 load_served servedCatalog_def, where ms = "db_models sampleDB"
      and ps = "db_parts sampleDB" and ss = "db_schematics sampleDB"]
  note u2 = exact_precedence [OF b2 load_served servedCatalog_def, where ms = "db_models sampleDB"
      and ps = "db_parts sampleDB" and ss = "db_schematics sampleDB"]
  have db: "initDB (db_models sampleDB) (db_schematics sampleDB) (db_parts sampleDB) = sampleDB"
    by (simp add: sampleDB_def initDB_def)
  have fm1: "\<exists>m\<in>set (db_models sampleDB). modelMatch_fuzzy m '' x-100 ''"
    and fp1: "\<exists>p\<in>set (db_parts sampleDB). partMatch_fuzzy p '' x-100 ''"
    and fm2: "\<not> (\<exists>m\<in>set (db_models sampleDB). modelMatch_fuzzy m ''p7'')"
    and fp2: "\<exists>p\<in>set (db_parts sampleDB). partMatch_fuzzy p ''p7''"
    and fs1: "schematicByKey (db_ix sampleDB) (key '' x-100 '') \<noteq> None"
    and fs2: "schematicByKey (db_ix sampleDB) (key ''p7'') \<noteq> None"
    by code_simp+
  have fr1: "runSearch_fuzzy (Inr sampleDB) (Some '' x-100 '') = Inr [Go ''model.html?id=X-100'']"
    using u1 [THEN conjunct2, THEN conjunct2, THEN conjunct1, rule_format, OF fm1]
    unfolding db by (simp add: fm uri_defs)
  have np: "\<not> partMatch_fuzzy \<lparr>fp_id = ''x_100'', fp_number = ''PN-1'', fp_manufacturer = [],
        fp_name = [], fp_description = [], fp_productStatus = [], fp_inventory = 0, fp_price = 0\<rparr> ''p7''"
    by code_simp
  from u2 [THEN conjunct2, THEN conjunct2, THEN conjunct2, rule_format, OF conjI [OF fm2 fp2]]
  obtain p where p: "p \<in> set (db_parts sampleDB)" "partMatch_fuzzy p ''p7''"
    "runSearch_fuzzy (Inr sampleDB) (Some ''p7'')
       = Inr [Go (''parts.html?id='' @ encodeURIComponent (orStr (fp_number p) (fp_id p)))]"
    unfolding db by blast
  from p(1,2) np have "p = \<lparr>fp_id = ''7'', fp_number = ''P-7'', fp_manufacturer = [], fp_name = [],
        fp_description = [], fp_productStatus = [], fp_inventory = 0, fp_price = 0\<rparr>"
    unfolding fp by auto
  with p(3) have fr2: "runSearch_fuzzy (Inr sampleDB) (Some ''p7'') = Inr [Go ''parts.html?id=P-7'']"
    by (simp add: uri_defs orStr_def)
  from b1 b2 load_served m1 p1 s1 r1 m2 p2 s2 r2 fm1 fp1 fs1 fr1 fm2 fp2 fs2 fr2 show ?thesis
    by (intro conjI)
qed

text \<open>
  The claim as stated counts the id alias as a model match. In the CSV catalog the query
  \<^verbatim>\<open>M1\<close> is the id of a model and the id of a part, and \<^verbatim>\<open>runSearch\<close> routes to the part; in
  the suggesting search a model without a model number is not indexed, and the query that
  is its id routes to the part as well.
\<close>

theorem exact_precedence_counterexample:
  "(\<exists>m\<in>set (models aliasCatalog). idAlias_csv m ''M1'')
   \<and> (\<exists>p\<in>set (parts aliasCatalog). partMatch_csv p ''M1'')
   \<and> fst (runSearch_csv codeUnitCompare notFound (Some aliasCatalog) (Some ''M1''))
       = Navigate ''product.html?id=M1''
   \<and> (\<exists>m\<in>set (db_models aliasDB). idAlias_fuzzy m ''M1'')
   \<and> (\<exists>p\<in>set (db_parts aliasDB). partMatch_fuzzy p ''M1'')
   \<and> runSearch_fuzzy (Inr aliasDB) (Some ''M1'') = Inr [Go ''parts.html?id=PN-1'']"
  by code_simp

section \<open>Automatic routing\<close>

text \<open>
  C2. \<^verbatim>\<open>pickUniqueRoute\<close> takes its runner-up among the second candidates of the three
  buckets only. A model at 0.91 and a part at 0.85 route to the model, and for a catalog
  whose model number and part number are both \<^verbatim>\<open>ABC123\<close> the query \<^verbatim>\<open>ABC123\<close> scores 1 in
  both buckets and still routes to the model.
\<close>

theorem uniqueRoute_other_bucket:
  "pickUniqueRoute
     [\<lparr>c_score = 0.91, c_label = ''A1'', c_sub = [], c_route = ''model.html?id=A1''\<rparr>]
     [\<lparr>c_score = 0.85, c_label = ''A2'', c_sub = [], c_route = ''parts.html?id=A2''\<rparr>] []
     = Some ''model.html?id=A1''
   \<and> map c_score (sg_models (findBestCandidates ''ABC123''
         (initDB [\<lparr>fm_id = ''M1'', fm_brand = ''Acme'', fm_modelNumber = ''ABC123''\<rparr>] []
                 [\<lparr>fp_id = ''P1'', fp_number = ''ABC123'', fp_manufacturer = [], fp_name = [],
                   fp_description = [], fp_productStatus = [], fp_inventory = 0, fp_price = 0\<rparr>])
         noLimits)) = [1]
   \<and> map c_score (sg_parts (findBestCandidates ''ABC123''
         (initDB [\<lparr>fm_id = ''M1'', fm_brand = ''Acme'', fm_modelNumber = ''ABC123''\<rparr>] []
                 [\<lparr>fp_id = ''P1'', fp_number = ''ABC123'', fp_manufacturer = [], fp_name = [],
                   fp_description = [], fp_productStatus = [], fp_inventory = 0, fp_price = 0\<rparr>])
         noLimits)) = [1]
   \<and> uniqueRoute (findBestCandidates ''ABC123''
         (initDB [\<lparr>fm_id = ''M1'', fm_brand = ''Acme'', fm_modelNumber = ''ABC123''\<rparr>] []
                 [\<lparr>fp_id = ''P1'', fp_number = ''ABC123'', fp_manufacturer = [], fp_name = [],
                   fp_description = [], fp_productStatus = [], fp_inventory = 0, fp_price = 0\<rparr>])
         noLimits) = Some ''model.html?id=ABC123''"
  by code_simp

section \<open>Currency coercion\<close>

text \<open>
  C3. \<^verbatim>\<open>parseMoneyUSD\<close> removes the minus sign with every other character that is not a
  digit or a point, so \<^verbatim>\<open>"-5"\<close> is read as 5 and the test \<^verbatim>\<open>n < 0\<close> never holds; the other
  examples of the claim evaluate as it says.
\<close>

theorem parseMoneyUSD_examples:
  "parseMoneyUSD (Some ''-5'') = Some 5
   \<and> parseMoneyUSD (Some ''$1,234.56'') = Some 999.99
   \<and> parseMoneyUSD (Some []) = None \<and> parseMoneyUSD None = None
   \<and> parseMoneyUSD (Some ''n/a'') = None"
  by (simp add: money_defs)

section \<open>The layers of the score\<close>

text \<open>
  C4. For every query key that is not empty, as every call of \<^verbatim>\<open>score\<close> passes it
  (\<^verbatim>\<open>findBestCandidates\<close> returns before scoring when the key of the query is empty), and
  every candidate text, \<^verbatim>\<open>score\<close> is layered as specified: 1 when the normalised forms are
  equal, else 0.97 times the length ratio when the normalised candidate starts with the
  query key, else 0.90 times the ratio when it contains the query key, else
  \<open>(1 - levenshtein / max length) * 0.85\<close>; and \<^verbatim>\<open>editDistance\<close> computes the standard
  unit-cost edit distance \<^const>\<open>levenshtein\<close>.
\<close>

theorem score_layered:
  "q \<noteq> [] \<Longrightarrow> score q c = score_spec q c \<and> (\<forall>a b. editDistance a b = levenshtein a b)"
  by (auto simp: score_def score_spec_def Let_def startsWith_prefix includes_sublist
      editDistance_levenshtein)

theorem score_layered_witness:
  "score ''BC1'' ''abc-123'' = 0.90 * (3 / 6) \<and> score ''ABD'' ''abc'' = (1 - 1 / 3) * 0.85
   \<and> score ''AB'' ''--'' = 0"
proof -
  have "score_spec ''BC1'' ''abc-123'' = 0.90 * (3 / 6)"
    "score_spec ''ABD'' ''abc'' = (1 - 1 / 3) * 0.85" "score_spec ''AB'' ''--'' = 0"
    by code_simp+
  then show ?thesis
    using score_layered [of "''BC1''" "''abc-123''"] score_layered [of "''ABD''" "''abc''"]
      score_layered [of "''AB''" "''--''"]
    by simp
qed

section \<open>Concrete scores\<close>

text \<open>
  C5, as amended. \<^verbatim>\<open>score("ABC123", "ABC123")\<close> is 1; \<^verbatim>\<open>score("ABC12", "ABC123")\<close> is the
  prefix value \<open>0.97 * 5/6\<close>, which is at least 0.8 and below 0.9;
  \<^verbatim>\<open>score("XYZ", "ABC123")\<close> is 0, below 0.5.
\<close>

theorem score_examples:
  "score ''ABC123'' ''ABC123'' = 1
   \<and> score ''ABC12'' ''ABC123'' = 0.97 * (5 / 6)
   \<and> 0.8 \<le> score ''ABC12'' ''ABC123'' \<and> score ''ABC12'' ''ABC123'' < 0.9
   \<and> score ''XYZ'' ''ABC123'' = 0 \<and> score ''XYZ'' ''ABC123'' < 0.5"
  by code_simp

text \<open>The prefix case of the claim does not reach 0.9.\<close>

theorem score_examples_counterexample:
  "\<not> (score ''ABC123'' ''ABC123'' = 1 \<and> 0.9 \<le> score ''ABC12'' ''ABC123''
       \<and> score ''XYZ'' ''ABC123'' < 0.5)"
  by code_simp

section \<open>The discard rules at load\<close>

text \<open>
  C6. In the catalog that \<^verbatim>\<open>load\<close> builds from the parsed rows, every model in the
  collection or in an index has an id or a model number, every schematic has an id and a
  model id, every link has a schematic id and a part id, and every part has an id or a
  number; the entity of a row that breaks its rule is in no collection and in no index.
\<close>

theorem load_discards_invalid_rows:
  assumes "db = build lc modelsRows schemsRows linksRows partsRows"
  shows "(\<forall>m\<in>heldModels db. validModel m) \<and> (\<forall>s\<in>heldSchematics db. validSchematic s)
       \<and> (\<forall>l\<in>heldLinks db. validLink l) \<and> (\<forall>p\<in>heldParts db. validPart p)
       \<and> (\<forall>r\<in>set modelsRows. \<not> validModel (mkModel r) \<longrightarrow> mkModel r \<notin> heldModels db)
       \<and> (\<forall>r\<in>set schemsRows. \<not> validSchematic (mkSchematic r) \<longrightarrow> mkSchematic r \<notin> heldSchematics db)
       \<and> (\<forall>r\<in>set linksRows. \<not> validLink (mkSchematicPart r) \<longrightarrow> mkSchematicPart r \<notin> heldLinks db)
       \<and> (\<forall>r\<in>set partsRows. \<not> validPart (mkPart r) \<longrightarrow> mkPart r \<notin> heldParts db)"
  unfolding assms held_models held_schematics held_links held_parts
    build_models build_schematics build_schematicParts build_parts
  by simp

theorem load_discards_invalid_rows_witness:
  "\<not> validModel (mkModel (modelRow [] ''Acme'' '' ''))
   \<and> mkModel (modelRow [] ''Acme'' '' '') \<notin> heldModels sampleCatalog
   \<and> \<not> validSchematic (mkSchematic (schematicRow ''S0'' [] ''Door'' ''1''))
   \<and> mkSchematic (schematicRow ''S0'' [] ''Door'' ''1'') \<notin> heldSchematics sampleCatalog
   \<and> \<not> validLink (mkSchematicPart (linkRow ''S1'' ''1'' ''1'' []))
   \<and> mkSchematicPart (linkRow ''S1'' ''1'' ''1'' []) \<notin> heldLinks sampleCatalog
   \<and> \<not> validPart (mkPart (partRow [] [] ''9.99''))
   \<and> mkPart (partRow [] [] ''9.99'') \<notin> heldParts sampleCatalog
   \<and> mkModel (modelRow ''M1'' ''Acme'' ''X-100'') \<in> heldModels sampleCatalog"
proof -
  note t = load_discards_invalid_rows [OF sampleCatalog_def]
  have m: "\<not> validModel (mkModel (modelRow [] ''Acme'' '' ''))"
    by (simp add: validModel_def row_defs)
  have s: "\<not> validSchematic (mkSchematic (schematicRow ''S0'' [] ''Door'' ''1''))"
    by (simp add: validSchematic_def row_defs)
  have l: "\<not> validLink (mkSchematicPart (linkRow ''S1'' ''1'' ''1'' []))"
    by (simp add: validLink_def row_defs)
  have p: "\<not> validPart (mkPart (partRow [] [] ''9.99''))"
    by (simp add: validPart_def row_defs)
  have "modelRow [] ''Acme'' '' '' \<in> set sampleModelRows"
    by (simp add: sampleModelRows_def)
  with t m have m': "mkModel (modelRow [] ''Acme'' '' '') \<notin> heldModels sampleCatalog" by blast
  have "schematicRow ''S0'' [] ''Door'' ''1'' \<in> set sampleSchemRows"
    by (simp add: sampleSchemRows_def)
  with t s have s': "mkSchematic (schematicRow ''S0'' [] ''Door'' ''1'') \<notin> heldSchematics sampleCatalog"
    by blast
  have "linkRow ''S1'' ''1'' ''1'' [] \<in> set sampleLinkRows"
    by (simp add: sampleLinkRows_def)
  with t l have l': "mkSchematicPart (linkRow ''S1'' ''1'' ''1'' []) \<notin> heldLinks sampleCatalog"
    by blast
  have "partRow [] [] ''9.99'' \<in> set samplePartRows"
    by (simp add: samplePartRows_def)
  with t p have p': "mkPart (partRow [] [] ''9.99'') \<notin> heldParts sampleCatalog" by blast
  have "mkModel (modelRow ''M1'' ''Acme'' ''X-100'') \<in> set (models sampleCatalog)"
    unfolding sampleCatalog_def build_models sampleModelRows_def
    by (simp add: validModel_def row_defs)
  then have k: "mkModel (modelRow ''M1'' ''Acme'' ''X-100'') \<in> heldModels sampleCatalog"
    by (simp add: heldModels_def)
  from m m' s s' l l' p p' k show ?thesis by (intro conjI)
qed

section \<open>The order of the parts of a schematic\<close>




section \<open>Failure of load\<close>

text \<open>
  C8. Starting without a cached catalog, \<^verbatim>\<open>load\<close> succeeds, and caches the catalog it
  returns, exactly when all four fetches succeed; when any of them does not, \<^verbatim>\<open>load\<close>
  fails with that failure and the cache stays empty, so that the next call fetches again.
\<close>

theorem load_failure_atomic:
  "(list_all (fetchOk fetch) sources \<longrightarrow> (\<exists>db. load lc fetch None = (Inr db, Some db)))
   \<and> (\<not> list_all (fetchOk fetch) sources \<longrightarrow> (\<exists>e. load lc fetch None = (Inl e, None)))"
proof (intro conjI impI)
  assume "list_all (fetchOk fetch) sources"
  then have "fetchOk fetch ''models.csv''" "fetchOk fetch ''schematics.csv''"
    "fetchOk fetch ''schematic_parts.csv''" "fetchOk fetch ''parts.csv''"
    by (simp_all add: sources_def)
  then obtain a b c d where "fetchText fetch ''models.csv'' = Inr a"
    "fetchText fetch ''schematics.csv'' = Inr b" "fetchText fetch ''schematic_parts.csv'' = Inr c"
    "fetchText fetch ''parts.csv'' = Inr d"
    using fetchText_ok [of fetch "''models.csv''"] fetchText_ok [of fetch "''schematics.csv''"]
      fetchText_ok [of fetch "''schematic_parts.csv''"] fetchText_ok [of fetch "''parts.csv''"]
    by auto
  then show "\<exists>db. load lc fetch None = (Inr db, Some db)"
    by (simp add: load_def Let_def)
next
  assume "\<not> list_all (fetchOk fetch) sources"
  then consider "\<not> fetchOk fetch ''models.csv''" | "\<not> fetchOk fetch ''schematics.csv''"
    | "\<not> fetchOk fetch ''schematic_parts.csv''" | "\<not> fetchOk fetch ''parts.csv''"
    by (auto simp: sources_def)
  then show "\<exists>e. load lc fetch None = (Inl e, None)"
  proof cases
    case 1 then show ?thesis using fetchText_fail [of fetch "''models.csv''"]
      by (auto simp: load_def)
  next
    case 2 then show ?thesis using fetchText_fail [of fetch "''schematics.csv''"]
      by (auto simp: load_def split: sum.splits)
  next
    case 3 then show ?thesis using fetchText_fail [of fetch "''schematic_parts.csv''"]
      by (auto simp: load_def split: sum.splits)
  next
    case 4 then show ?thesis using fetchText_fail [of fetch "''parts.csv''"]
      by (auto simp: load_def split: sum.splits)
  qed
qed

theorem load_failure_atomic_witness:
  "\<not> list_all (fetchOk notFound) sources
   \<and> load codeUnitCompare notFound None = (Inl (HttpError 404 ''parts.csv''), None)"
  using load_failure_atomic [of notFound codeUnitCompare]
  by (simp add: sources_def fetchOk_def notFound_def load_def fetchText_def)

section \<open>Idempotence of the normalisation keys\<close>

text \<open>
  C9. Both normalisation functions are idempotent: \<^verbatim>\<open>key\<close> of the suggesting search
  (upper case, white space, hyphens and underscores removed) and \<^verbatim>\<open>norm\<close> of the CSV
  catalog (trimmed, lower case) return their argument unchanged when it is already a key.
\<close>

theorem normKey_idempotent: "key (key s) = key s \<and> norm_s (norm_s s) = norm_s s"
proof
  show "key (key s) = key s"
    by (simp add: key_filtered toUpperCase_def filter_map comp_def toUpperChar_idem)
  have "norm_s (norm_s s) = toLowerCase (toLowerCase (trim s))"
    by (simp add: norm_s_def trim_toLowerCase trim_idem)
  then show "norm_s (norm_s s) = norm_s s"
    by (simp add: norm_s_def toLowerCase_def toLowerChar_idem)
qed

theorem normKey_idempotent_witness:
  "key (key '' acm-1_00 '') = key '' acm-1_00 '' \<and> key '' acm-1_00 '' = ''ACM100''
   \<and> norm_s (norm_s '' Acm-100 '') = norm_s '' Acm-100 '' \<and> norm_s '' Acm-100 '' = ''acm-100''"
  using normKey_idempotent [of "'' acm-1_00 ''"] normKey_idempotent [of "'' Acm-100 ''"]
  by (simp add: key_filtered toUpperCase_def toUpperChar_def is_space_def
      norm_s_def trim_def toLowerCase_def toLowerChar_def)

section \<open>Blank queries\<close>

text \<open>
  C10, as amended. For a query that is absent, empty or white space only, \<^verbatim>\<open>runSearch\<close> of
  the CSV catalog returns at once: nothing is loaded or looked up (the cache is as before,
  whatever the fetch would answer) and nothing is navigated to. \<^verbatim>\<open>runSearch\<close> of the
  suggesting search first awaits \<^verbatim>\<open>DB.init()\<close>: when that succeeded it only shows the toast
  asking for a model or part number, whatever the database holds; when it failed, the
  failure is raised again.
\<close>

theorem empty_query_noop:
  "blankQuery query \<Longrightarrow>
     runSearch_csv lc fetch cache query = (Returned, cache)
     \<and> runSearch_fuzzy (Inr db) query = Inr [ShowToast ''Enter a model or part number.'']
     \<and> runSearch_fuzzy (Inl err) query = Inl err"
  by (simp add: blank_trim runSearch_csv_def runSearch_fuzzy_def)

theorem empty_query_noop_witness:
  "blankQuery (Some [CHR '' '', CHR 0x09]) \<and> blankQuery None
   \<and> runSearch_csv codeUnitCompare notFound None (Some [CHR '' '', CHR 0x09]) = (Returned, None)
   \<and> runSearch_fuzzy (Inr (initDB [] [] [])) None = Inr [ShowToast ''Enter a model or part number.'']"
  using empty_query_noop [of "Some [CHR '' '', CHR 0x09]" codeUnitCompare notFound None]
    empty_query_noop [of None codeUnitCompare notFound None "initDB [] [] []"]
  by (simp add: blankQuery_def is_space_def)

text \<open>
  The claim as stated fails for the suggesting search: with a rejected \<^verbatim>\<open>DB.init()\<close> a
  blank query does not return normally.
\<close>

theorem empty_query_counterexample:
  "\<not> (\<exists>effects. runSearch_fuzzy (Inl (FetchRejected ''/models.csv'')) (Some '' '') = Inr effects)"
  by (simp add: runSearch_fuzzy_def)

end
